theory Spec2Isabelle
  imports Main "HOL-Library.Char_ord" "HOL-Library.List_Lexorder"
begin

section \<open>Byte strings of the source notation\<close>

text \<open>
  The compiler works on \<^verbatim>\<open>std::string\<close>, a sequence of bytes; the source file
  is UTF-8, so every Korean glyph of a keyword is three bytes. A \<^typ>\<open>string\<close> here is
  the byte sequence, and each literal of \<^verbatim>\<open>compiler.cpp\<close> is written out as the
  bytes it has in the source file.
\<close>

definition glyph_bap :: string where
  \<comment> \<open>UTF-8 bytes of U+BC25\<close>
  "glyph_bap =
    [CHR 0xEB, CHR 0xB0, CHR 0xA5]"

definition glyph_ba :: string where
  \<comment> \<open>UTF-8 bytes of U+BC14\<close>
  "glyph_ba =
    [CHR 0xEB, CHR 0xB0, CHR 0x94]"

definition glyph_ap :: string where
  \<comment> \<open>UTF-8 bytes of U+C555\<close>
  "glyph_ap =
    [CHR 0xEC, CHR 0x95, CHR 0x95]"

definition glyph_a :: string where
  \<comment> \<open>UTF-8 bytes of U+C544\<close>
  "glyph_a =
    [CHR 0xEC, CHR 0x95, CHR 0x84]"

definition kw_eun :: string where
  \<comment> \<open>UTF-8 bytes of U+C740\<close>
  "kw_eun =
    [CHR 0xEC, CHR 0x9D, CHR 0x80]"

definition kw_ip :: string where
  \<comment> \<open>UTF-8 bytes of U+C785\<close>
  "kw_ip =
    [CHR 0xEC, CHR 0x9E, CHR 0x85]"

definition kw_mol :: string where
  \<comment> \<open>UTF-8 bytes of U+BAB0\<close>
  "kw_mol =
    [CHR 0xEB, CHR 0xAA, CHR 0xB0]"

definition kw_camp :: string where
  \<comment> \<open>UTF-8 bytes of U+CEA0 U+D504\<close>
  "kw_camp =
    [CHR 0xEC, CHR 0xBA, CHR 0xA0, CHR 0xED, CHR 0x94, CHR 0x84]"

definition kw_toegeun :: string where
  \<comment> \<open>UTF-8 bytes of U+D1F4 U+ADFC\<close>
  "kw_toegeun =
    [CHR 0xED, CHR 0x87, CHR 0xB4, CHR 0xEA, CHR 0xB7, CHR 0xBC]"

definition kw_scrum :: string where
  \<comment> \<open>UTF-8 bytes of U+C2A4 U+D06C U+B7FC\<close>
  "kw_scrum =
    [CHR 0xEC, CHR 0x8A, CHR 0xA4, CHR 0xED, CHR 0x81, CHR 0xAC, CHR 0xEB, CHR 0x9F, CHR 0xBC]"

definition kw_mwomeok :: string where
  \<comment> \<open>UTF-8 bytes of U+BB50 U+BA39\<close>
  "kw_mwomeok =
    [CHR 0xEB, CHR 0xAD, CHR 0x90, CHR 0xEB, CHR 0xA8, CHR 0xB9]"

definition kw_deotsem :: string where
  \<comment> \<open>UTF-8 bytes of U+B367 U+C148\<close>
  "kw_deotsem =
    [CHR 0xEB, CHR 0x8D, CHR 0xA7, CHR 0xEC, CHR 0x85, CHR 0x88]"

definition kw_hap :: string where
  \<comment> \<open>UTF-8 bytes of U+D569\<close>
  "kw_hap =
    [CHR 0xED, CHR 0x95, CHR 0xA9]"

definition kw_deohagi :: string where
  \<comment> \<open>UTF-8 bytes of U+B354 U+D558 U+AE30\<close>
  "kw_deohagi =
    [CHR 0xEB, CHR 0x8D, CHR 0x94, CHR 0xED, CHR 0x95, CHR 0x98, CHR 0xEA, CHR 0xB8, CHR 0xB0]"

definition kw_gopsem :: string where
  \<comment> \<open>UTF-8 bytes of U+ACF1 U+C148\<close>
  "kw_gopsem =
    [CHR 0xEA, CHR 0xB3, CHR 0xB1, CHR 0xEC, CHR 0x85, CHR 0x88]"

definition kw_gop :: string where
  \<comment> \<open>UTF-8 bytes of U+ACF1\<close>
  "kw_gop =
    [CHR 0xEA, CHR 0xB3, CHR 0xB1]"

definition kw_gat :: string where
  \<comment> \<open>UTF-8 bytes of U+AC19\<close>
  "kw_gat =
    [CHR 0xEA, CHR 0xB0, CHR 0x99]"

definition kw_jak :: string where
  \<comment> \<open>UTF-8 bytes of U+C791\<close>
  "kw_jak =
    [CHR 0xEC, CHR 0x9E, CHR 0x91]"

definition kw_gatjak :: string where
  \<comment> \<open>UTF-8 bytes of U+AC19 U+C791\<close>
  "kw_gatjak =
    [CHR 0xEA, CHR 0xB0, CHR 0x99, CHR 0xEC, CHR 0x9E, CHR 0x91]"

definition kw_jakgat :: string where
  \<comment> \<open>UTF-8 bytes of U+C791 U+AC19\<close>
  "kw_jakgat =
    [CHR 0xEC, CHR 0x9E, CHR 0x91, CHR 0xEA, CHR 0xB0, CHR 0x99]"

definition kw_cursor :: string where
  \<comment> \<open>UTF-8 bytes of U+CEE4 U+C11C\<close>
  "kw_cursor =
    [CHR 0xEC, CHR 0xBB, CHR 0xA4, CHR 0xEC, CHR 0x84, CHR 0x9C]"

definition kw_gpt :: string where
  \<comment> \<open>UTF-8 bytes of U+C9C0 U+D53C U+D2F0\<close>
  "kw_gpt =
    [CHR 0xEC, CHR 0xA7, CHR 0x80, CHR 0xED, CHR 0x94, CHR 0xBC, CHR 0xED, CHR 0x8B, CHR 0xB0]"

definition kw_gemini :: string where
  \<comment> \<open>UTF-8 bytes of U+C81C U+BBF8 U+B098 U+C774\<close>
  "kw_gemini =
    [CHR 0xEC, CHR 0xA0, CHR 0x9C, CHR 0xEB, CHR 0xAF, CHR 0xB8, CHR 0xEB, CHR 0x82, CHR 0x98,
     CHR 0xEC, CHR 0x9D, CHR 0xB4]"

definition kw_claude :: string where
  \<comment> \<open>UTF-8 bytes of U+D074 U+B85C U+B4DC\<close>
  "kw_claude =
    [CHR 0xED, CHR 0x81, CHR 0xB4, CHR 0xEB, CHR 0xA1, CHR 0x9C, CHR 0xEB, CHR 0x93, CHR 0x9C]"

definition kw_cline :: string where
  \<comment> \<open>UTF-8 bytes of U+D074 U+B77C U+C778\<close>
  "kw_cline =
    [CHR 0xED, CHR 0x81, CHR 0xB4, CHR 0xEB, CHR 0x9D, CHR 0xBC, CHR 0xEC, CHR 0x9D, CHR 0xB8]"

definition kw_grok :: string where
  \<comment> \<open>UTF-8 bytes of U+ADF8 U+B85D\<close>
  "kw_grok =
    [CHR 0xEA, CHR 0xB7, CHR 0xB8, CHR 0xEB, CHR 0xA1, CHR 0x9D]"

definition egg_cursor :: string where
  \<comment> \<open>UTF-8 bytes of U+CEE4 U+C11C U+B294 U+0020 U+C2E0 U+C774 U+C57C\<close>
  "egg_cursor =
    [CHR 0xEC, CHR 0xBB, CHR 0xA4, CHR 0xEC, CHR 0x84, CHR 0x9C, CHR 0xEB, CHR 0x8A, CHR 0x94,
     CHR 0x20, CHR 0xEC, CHR 0x8B, CHR 0xA0, CHR 0xEC, CHR 0x9D, CHR 0xB4, CHR 0xEC, CHR 0x95,
     CHR 0xBC]"

definition egg_gpt :: string where
  \<comment> \<open>UTF-8 bytes of U+C9C0 U+D53C U+D2F0 U+B294 U+0020 U+C694 U+C998 U+0020 U+C560 U+B9E4 U+D574\<close>
  "egg_gpt =
    [CHR 0xEC, CHR 0xA7, CHR 0x80, CHR 0xED, CHR 0x94, CHR 0xBC, CHR 0xED, CHR 0x8B, CHR 0xB0,
     CHR 0xEB, CHR 0x8A, CHR 0x94, CHR 0x20, CHR 0xEC, CHR 0x9A, CHR 0x94, CHR 0xEC, CHR 0xA6,
     CHR 0x98, CHR 0x20, CHR 0xEC, CHR 0x95, CHR 0xA0, CHR 0xEB, CHR 0xA7, CHR 0xA4, CHR 0xED,
     CHR 0x95, CHR 0xB4]"

definition egg_gemini :: string where
  \<comment> \<open>UTF-8 bytes of U+C81C U+BBF8 U+B098 U+C774 U+B294 U+0020 U+C798 U+0020 U+B530 U+B77C U+AC00 U+B294 U+C911\<close>
  "egg_gemini =
    [CHR 0xEC, CHR 0xA0, CHR 0x9C, CHR 0xEB, CHR 0xAF, CHR 0xB8, CHR 0xEB, CHR 0x82, CHR 0x98,
     CHR 0xEC, CHR 0x9D, CHR 0xB4, CHR 0xEB, CHR 0x8A, CHR 0x94, CHR 0x20, CHR 0xEC, CHR 0x9E,
     CHR 0x98, CHR 0x20, CHR 0xEB, CHR 0x94, CHR 0xB0, CHR 0xEB, CHR 0x9D, CHR 0xBC, CHR 0xEA,
     CHR 0xB0, CHR 0x80, CHR 0xEB, CHR 0x8A, CHR 0x94, CHR 0xEC, CHR 0xA4, CHR 0x91]"

definition egg_claude :: string where
  \<comment> \<open>UTF-8 bytes of U+D074 U+B85C U+B4DC U+B294 U+0020 U+004C U+004C U+004D U+0020 U+C911 U+0020 U+CF54 U+B529 U+0020 U+B05D U+D310 U+C655\<close>
  "egg_claude =
    [CHR 0xED, CHR 0x81, CHR 0xB4, CHR 0xEB, CHR 0xA1, CHR 0x9C, CHR 0xEB, CHR 0x93, CHR 0x9C,
     CHR 0xEB, CHR 0x8A, CHR 0x94, CHR 0x20, CHR 0x4C, CHR 0x4C, CHR 0x4D, CHR 0x20, CHR 0xEC,
     CHR 0xA4, CHR 0x91, CHR 0x20, CHR 0xEC, CHR 0xBD, CHR 0x94, CHR 0xEB, CHR 0x94, CHR 0xA9,
     CHR 0x20, CHR 0xEB, CHR 0x81, CHR 0x9D, CHR 0xED, CHR 0x8C, CHR 0x90, CHR 0xEC, CHR 0x99,
     CHR 0x95]"

definition egg_cline :: string where
  \<comment> \<open>UTF-8 bytes of U+D074 U+B77C U+C778 U+B3C4 U+0020 U+B808 U+C804 U+B4DC U+C785 U+B2C8 U+B2E4 U+2026 U+0020 U+AF2D U+0020 U+C4F0 U+C138 U+C694\<close>
  "egg_cline =
    [CHR 0xED, CHR 0x81, CHR 0xB4, CHR 0xEB, CHR 0x9D, CHR 0xBC, CHR 0xEC, CHR 0x9D, CHR 0xB8,
     CHR 0xEB, CHR 0x8F, CHR 0x84, CHR 0x20, CHR 0xEB, CHR 0xA0, CHR 0x88, CHR 0xEC, CHR 0xA0,
     CHR 0x84, CHR 0xEB, CHR 0x93, CHR 0x9C, CHR 0xEC, CHR 0x9E, CHR 0x85, CHR 0xEB, CHR 0x8B,
     CHR 0x88, CHR 0xEB, CHR 0x8B, CHR 0xA4, CHR 0xE2, CHR 0x80, CHR 0xA6, CHR 0x20, CHR 0xEA,
     CHR 0xBC, CHR 0xAD, CHR 0x20, CHR 0xEC, CHR 0x93, CHR 0xB0, CHR 0xEC, CHR 0x84, CHR 0xB8,
     CHR 0xEC, CHR 0x9A, CHR 0x94]"

definition egg_grok :: string where
  \<comment> \<open>UTF-8 bytes of U+ADF8 U+B85D U+0020 U+B204 U+AC00 U+C500 U+003F\<close>
  "egg_grok =
    [CHR 0xEA, CHR 0xB7, CHR 0xB8, CHR 0xEB, CHR 0xA1, CHR 0x9D, CHR 0x20, CHR 0xEB, CHR 0x88,
     CHR 0x84, CHR 0xEA, CHR 0xB0, CHR 0x80, CHR 0xEC, CHR 0x94, CHR 0x80, CHR 0x3F]"

section \<open>The variable-name pattern\<close>

text \<open>
  \<^verbatim>\<open>s.substr(pos, n)\<close> and \<^verbatim>\<open>s.substr(pos)\<close>. Both throw when
  \<open>pos > s.length()\<close>; every call of the compiler is guarded so that \<open>pos\<close> is in
  range, so the throwing branch is not part of the model.
\<close>

definition substr :: "string \<Rightarrow> nat \<Rightarrow> nat \<Rightarrow> string" where
  "substr s pos n = take n (drop pos s)"

definition substr_from :: "string \<Rightarrow> nat \<Rightarrow> string" where
  "substr_from s pos = drop pos s"

text \<open>\<^verbatim>\<open>s.rfind(p, 0) == 0\<close>: the string \<open>s\<close> starts with \<open>p\<close>.\<close>

definition starts_with :: "string \<Rightarrow> string \<Rightarrow> bool" where
  "starts_with s p = (take (length p) s = p)"

text \<open>
  The loop of \<^verbatim>\<open>is_variable\<close>:
  \<^verbatim>\<open>for (size_t i = 3; i < token.length() - 3; i += 3)\<close>, entered only when the
  length is at least 6.
\<close>

function is_variable_loop :: "string \<Rightarrow> nat \<Rightarrow> bool" where
  "is_variable_loop token i =
     (if i < length token - 3
      then (if substr token i 3 \<noteq> glyph_a then False
            else is_variable_loop token (i + 3))
      else True)"
  by pat_completeness auto
termination
  by (relation "measure (\<lambda>(token, i). length token - 3 - i)") auto

declare is_variable_loop.simps [simp del]

definition is_variable :: "string \<Rightarrow> bool" where
  "is_variable token =
     (if token = glyph_bap then True
      else if 6 \<le> length token \<and> starts_with token glyph_ba
              \<and> substr_from token (length token - 3) = glyph_ap
      then is_variable_loop token 3
      else False)"

section \<open>Tokens\<close>

datatype TokenType = KEYWORD | IDENTIFIER | NUMBER | STRING | SYMBOL | END_OF_FILE

text \<open>
  The struct \<^verbatim>\<open>Token\<close> with its fields \<^verbatim>\<open>type\<close> and
  \<^verbatim>\<open>value\<close>, which get a prefix here because \<open>value\<close> is a command of Isabelle.
\<close>

record Token =
  tok_type :: TokenType
  tok_value :: string

text \<open>
  Everything the compiler can throw. The parser throws \<^verbatim>\<open>std::runtime_error\<close>
  with five different messages; \<^verbatim>\<open>std::stoi\<close> throws
  \<^verbatim>\<open>std::invalid_argument\<close> or \<^verbatim>\<open>std::out_of_range\<close>.
\<close>

datatype error =
    UnexpectedEofPeeking
  | UnexpectedEofConsuming
  | InvalidStatementStart string
  | InvalidExpressionTerm string
  | UnknownOperator string
  | StoiInvalidArgument
  | StoiOutOfRange

section \<open>Library functions used by the lexer\<close>

text \<open>
  \<^verbatim>\<open>isspace\<close> in the "C" locale: space, and the five control characters from
  horizontal tab to carriage return. No byte of a multi-byte UTF-8 sequence is one of them.
\<close>

definition isspace :: "char \<Rightarrow> bool" where
  "isspace c = (c \<in> set [CHR 0x20, CHR 0x09, CHR 0x0A, CHR 0x0B, CHR 0x0C, CHR 0x0D])"

definition isdigit :: "char \<Rightarrow> bool" where
  "isdigit c = (c \<in> set ''0123456789'')"

definition digit_value :: "char \<Rightarrow> int" where
  "digit_value c = int (of_char c) - 48"

definition decimal_value :: "string \<Rightarrow> int" where
  "decimal_value ds = foldl (\<lambda>acc c. acc * 10 + digit_value c) 0 ds"

text \<open>
  \<^verbatim>\<open>std::stoi(str)\<close> with the default base 10: leading white space is skipped, one
  optional sign is read, then the longest run of decimal digits; characters after the digits
  are ignored. With no digit it throws \<^verbatim>\<open>std::invalid_argument\<close>; when the value
  does not fit a 32-bit \<^verbatim>\<open>int\<close> it throws \<^verbatim>\<open>std::out_of_range\<close>.
\<close>

definition stoi :: "string \<Rightarrow> error + int" where
  "stoi str =
     (let s1 = dropWhile isspace str;
          neg = (s1 \<noteq> [] \<and> hd s1 = CHR ''-'');
          s2 = (if s1 \<noteq> [] \<and> (hd s1 = CHR ''-'' \<or> hd s1 = CHR ''+'') then tl s1 else s1);
          ds = takeWhile isdigit s2;
          v = (if neg then - decimal_value ds else decimal_value ds)
      in if ds = [] then Inl StoiInvalidArgument
         else if v < - 2147483648 \<or> 2147483647 < v then Inl StoiOutOfRange
         else Inr v)"

section \<open>The lexer\<close>

definition is_keyword :: "string \<Rightarrow> bool" where
  "is_keyword v =
     (v = kw_eun \<or> v = kw_ip \<or> v = kw_mol \<or> v = kw_camp \<or> v = kw_toegeun
      \<or> v = kw_scrum \<or> v = kw_mwomeok
      \<or> v = kw_deotsem \<or> v = kw_hap \<or> v = kw_deohagi \<or> v = kw_gopsem \<or> v = kw_gop
      \<or> v = kw_gat \<or> v = kw_jak \<or> v = kw_gatjak \<or> v = kw_jakgat
      \<or> v = kw_cursor \<or> v = kw_gpt \<or> v = kw_gemini \<or> v = kw_claude
      \<or> v = kw_cline \<or> v = kw_grok)"

text \<open>
  The classification of a word, lines 81 to 96 of \<^verbatim>\<open>tokenize\<close>. The
  \<^verbatim>\<open>catch\<close> clause names \<^verbatim>\<open>std::invalid_argument\<close> only, so
  \<^verbatim>\<open>std::out_of_range\<close> leaves \<^verbatim>\<open>tokenize\<close>.
\<close>

definition classify_word :: "string \<Rightarrow> error + Token" where
  "classify_word v =
     (if is_keyword v then Inr \<lparr>tok_type = KEYWORD, tok_value = v\<rparr>
      else if is_variable v then Inr \<lparr>tok_type = IDENTIFIER, tok_value = v\<rparr>
      else (case stoi v of
              Inr n \<Rightarrow> Inr \<lparr>tok_type = NUMBER, tok_value = v\<rparr>
            | Inl StoiInvalidArgument \<Rightarrow> Inr \<lparr>tok_type = IDENTIFIER, tok_value = v\<rparr>
            | Inl e \<Rightarrow> Inl e))"

definition word_char :: "char \<Rightarrow> bool" where
  "word_char c = (\<not> isspace c \<and> c \<noteq> CHR ''['' \<and> c \<noteq> CHR '']'')"

text \<open>
  The loop of \<^verbatim>\<open>tokenize\<close>, on the part of \<^verbatim>\<open>code\<close> from index
  \<open>i\<close> on. The two inner \<^verbatim>\<open>while\<close> loops advance \<open>i\<close> to the first
  character that ends the span (\<open>takeWhile\<close> is the span, \<open>dropWhile\<close> what is left);
  the closing quote is skipped when there is one. In the last branch \<open>c\<close> is a word
  character, so the word is never empty and the \<^verbatim>\<open>continue\<close> of line 79 is
  never taken. The first exception ends the loop.
\<close>

function tokenize_loop :: "string \<Rightarrow> error + Token list" where
  "tokenize_loop [] = Inr [\<lparr>tok_type = END_OF_FILE, tok_value = []\<rparr>]"
| "tokenize_loop (c # cs) =
     (if isspace c then tokenize_loop cs
      else if c = CHR ''['' \<or> c = CHR '']'' then
        (case tokenize_loop cs of
           Inl e \<Rightarrow> Inl e
         | Inr ts \<Rightarrow> Inr (\<lparr>tok_type = SYMBOL, tok_value = [c]\<rparr> # ts))
      else if c = CHR 0x22 \<or> c = CHR 0x27 then
        (case tokenize_loop (drop 1 (dropWhile (\<lambda>d. d \<noteq> c) cs)) of
           Inl e \<Rightarrow> Inl e
         | Inr ts \<Rightarrow>
             Inr (\<lparr>tok_type = STRING, tok_value = takeWhile (\<lambda>d. d \<noteq> c) cs\<rparr> # ts))
      else
        (case classify_word (c # takeWhile word_char cs) of
           Inl e \<Rightarrow> Inl e
         | Inr t \<Rightarrow>
             (case tokenize_loop (dropWhile word_char cs) of
                Inl e \<Rightarrow> Inl e
              | Inr ts \<Rightarrow> Inr (t # ts))))"
  by pat_completeness auto
termination
proof (relation "measure length")
  fix c :: char and cs :: string
  have "length (dropWhile (\<lambda>d. d \<noteq> c) cs) \<le> length cs"
    by (rule length_dropWhile_le)
  then show "(drop 1 (dropWhile (\<lambda>d. d \<noteq> c) cs), c # cs) \<in> measure length"
    by simp
next
  fix c :: char and cs :: string
  have "length (dropWhile word_char cs) \<le> length cs"
    by (rule length_dropWhile_le)
  then show "(dropWhile word_char cs, c # cs) \<in> measure length"
    by simp
qed simp_all

definition tokenize :: "string \<Rightarrow> error + Token list" where
  "tokenize code = tokenize_loop code"

section \<open>The abstract syntax tree\<close>

text \<open>
  The subclasses of \<^verbatim>\<open>ASTNode\<close>; a \<^verbatim>\<open>std::unique_ptr\<close> child is the
  child itself and a \<^verbatim>\<open>std::vector\<close> of children a list. The parser only builds
  nodes whose pointers are not null.
\<close>

datatype ASTNode =
    NumberNode string
  | StringNode string
  | VariableNode string
  | InputNode
  | BinaryOpNode ASTNode string ASTNode
  | AssignNode string ASTNode
  | PrintNode ASTNode
  | IfNode ASTNode "ASTNode list"
  | WhileNode ASTNode "ASTNode list"
  | FuncDefNode string "ASTNode list"
  | FuncCallNode string
  | ReturnNode ASTNode

section \<open>The parser\<close>

text \<open>
  The state of a \<^verbatim>\<open>Parser\<close> is the token vector, which never changes, and the
  index \<^verbatim>\<open>pos\<close>. Every method takes both and returns the new index with its
  result, or the exception it throws.
\<close>

definition peek :: "Token list \<Rightarrow> nat \<Rightarrow> error + Token" where
  "peek tokens pos =
     (if length tokens \<le> pos then Inl UnexpectedEofPeeking else Inr (tokens ! pos))"

definition consume :: "Token list \<Rightarrow> nat \<Rightarrow> error + (Token \<times> nat)" where
  "consume tokens pos =
     (if length tokens \<le> pos then Inl UnexpectedEofConsuming
      else Inr (tokens ! pos, pos + 1))"

definition get_operator :: "string \<Rightarrow> error + string" where
  "get_operator token =
     (if token = kw_deotsem \<or> token = kw_hap \<or> token = kw_deohagi then Inr ''+''
      else if token = kw_gopsem \<or> token = kw_gop then Inr ''*''
      else if token = kw_gat then Inr ''==''
      else if token = kw_jak then Inr ''<''
      else if token = kw_gatjak \<or> token = kw_jakgat then Inr ''<=''
      else Inl (UnknownOperator token))"

definition parse_simple_expr :: "Token list \<Rightarrow> nat \<Rightarrow> error + (ASTNode \<times> nat)" where
  "parse_simple_expr tokens pos =
     (case consume tokens pos of
        Inl e \<Rightarrow> Inl e
      | Inr (token, pos1) \<Rightarrow>
          if tok_type token = NUMBER then Inr (NumberNode (tok_value token), pos1)
          else if tok_type token = STRING then Inr (StringNode (tok_value token), pos1)
          else if tok_type token = IDENTIFIER then Inr (VariableNode (tok_value token), pos1)
          else if tok_value token = kw_mwomeok then Inr (InputNode, pos1)
          else if tok_value token = kw_cursor then Inr (StringNode egg_cursor, pos1)
          else if tok_value token = kw_gpt then Inr (StringNode egg_gpt, pos1)
          else if tok_value token = kw_gemini then Inr (StringNode egg_gemini, pos1)
          else if tok_value token = kw_claude then Inr (StringNode egg_claude, pos1)
          else if tok_value token = kw_cline then Inr (StringNode egg_cline, pos1)
          else if tok_value token = kw_grok then Inr (StringNode egg_grok, pos1)
          else Inl (InvalidExpressionTerm (tok_value token)))"

lemma consume_Inr:
  "consume tokens pos = Inr (t, pos1) \<Longrightarrow> pos < length tokens \<and> pos1 = Suc pos \<and> t = tokens ! pos"
  by (auto simp: consume_def split: if_splits)

lemma peek_Inr:
  "peek tokens pos = Inr t \<Longrightarrow> pos < length tokens \<and> t = tokens ! pos"
  by (auto simp: peek_def split: if_splits)

lemma parse_simple_expr_Inr:
  "parse_simple_expr tokens pos = Inr (n, pos1) \<Longrightarrow> pos < length tokens \<and> pos1 = Suc pos"
  by (auto simp: parse_simple_expr_def split: sum.splits if_splits dest: consume_Inr)

text \<open>
  The keywords that end an expression (line 339). The test of line 340 for a bracket can
  never hold for a token of type \<^verbatim>\<open>KEYWORD\<close>; it is kept as it is written.
\<close>

definition expression_stop :: "string \<Rightarrow> bool" where
  "expression_stop op_token =
     (op_token = kw_eun \<or> op_token = kw_ip \<or> op_token = kw_mol \<or> op_token = kw_scrum
      \<or> op_token = kw_camp \<or> op_token = kw_toegeun)"

function parse_expression_loop ::
  "Token list \<Rightarrow> ASTNode \<Rightarrow> nat \<Rightarrow> error + (ASTNode \<times> nat)" where
  "parse_expression_loop tokens left pos =
     (case peek tokens pos of
        Inl e \<Rightarrow> Inl e
      | Inr t \<Rightarrow>
          if tok_type t \<noteq> KEYWORD then Inr (left, pos)
          else if expression_stop (tok_value t) then Inr (left, pos)
          else if tok_value t = ''['' \<or> tok_value t = '']'' then Inr (left, pos)
          else
            (case consume tokens pos of
               Inl e \<Rightarrow> Inl e
             | Inr (t1, pos1) \<Rightarrow>
                 (case get_operator (tok_value t) of
                    Inl e \<Rightarrow> Inl e
                  | Inr op \<Rightarrow>
                      (case parse_simple_expr tokens pos1 of
                         Inl e \<Rightarrow> Inl e
                       | Inr (right, pos2) \<Rightarrow>
                           parse_expression_loop tokens (BinaryOpNode left op right) pos2))))"
  by pat_completeness auto
termination
  by (relation "measure (\<lambda>(tokens, left, pos). length tokens - pos)")
     (auto dest!: consume_Inr parse_simple_expr_Inr)

declare parse_expression_loop.simps [simp del]

definition parse_expression :: "Token list \<Rightarrow> nat \<Rightarrow> error + (ASTNode \<times> nat)" where
  "parse_expression tokens pos =
     (case parse_simple_expr tokens pos of
        Inl e \<Rightarrow> Inl e
      | Inr (left, pos1) \<Rightarrow> parse_expression_loop tokens left pos1)"

lemma parse_expression_loop_Inr:
  "parse_expression_loop tokens left pos = Inr (n, pos') \<Longrightarrow> pos \<le> pos' \<and> pos' \<le> length tokens \<and> pos < length tokens"
proof (induction tokens left pos rule: parse_expression_loop.induct)
  case (1 tokens left pos)
  from "1.prems" obtain t where t: "peek tokens pos = Inr t"
    by (subst (asm) parse_expression_loop.simps) (simp split: sum.splits)
  then have lt: "pos < length tokens" by (simp add: peek_Inr)
  show ?case
  proof (cases "tok_type t \<noteq> KEYWORD \<or> expression_stop (tok_value t)
                 \<or> tok_value t = ''['' \<or> tok_value t = '']''")
    case True
    with "1.prems" t lt show ?thesis
      by (subst (asm) parse_expression_loop.simps) (auto split: if_splits)
  next
    case False
    with "1.prems" t obtain t1 pos1 op right pos2 where
      c: "consume tokens pos = Inr (t1, pos1)" and
      g: "get_operator (tok_value t) = Inr op" and
      s: "parse_simple_expr tokens pos1 = Inr (right, pos2)" and
      r: "parse_expression_loop tokens (BinaryOpNode left op right) pos2 = Inr (n, pos')"
      by (subst (asm) parse_expression_loop.simps) (auto split: sum.splits if_splits)
    from False have f: "\<not> tok_type t \<noteq> KEYWORD" "\<not> expression_stop (tok_value t)"
      "\<not> (tok_value t = ''['' \<or> tok_value t = '']'')" by auto
    have "pos2 \<le> pos' \<and> pos' \<le> length tokens \<and> pos2 < length tokens"
      using "1.IH"[OF t f c refl g s refl r] .
    moreover have "pos1 = Suc pos" using c by (simp add: consume_Inr)
    moreover have "pos2 = Suc pos1" using s by (simp add: parse_simple_expr_Inr)
    ultimately show ?thesis using lt by simp
  qed
qed


lemma parse_expression_Inr:
  "parse_expression tokens pos = Inr (n, pos') \<Longrightarrow> pos < pos' \<and> pos' \<le> length tokens"
  by (auto simp: parse_expression_def split: sum.splits
           dest!: parse_simple_expr_Inr parse_expression_loop_Inr)

text \<open>
  \<^verbatim>\<open>parse_statement\<close> and \<^verbatim>\<open>parse_block\<close> call each other; the loop of
  \<^verbatim>\<open>parse_block\<close> collects the statements it has pushed so far. The second
  \<^verbatim>\<open>consume()\<close> of an assignment and the first one of a block take whatever token
  is there: the source does not compare it with the keyword or the bracket its comment names.
\<close>

function (domintros) parse_statement :: "Token list \<Rightarrow> nat \<Rightarrow> error + (ASTNode \<times> nat)"
  and parse_block :: "Token list \<Rightarrow> nat \<Rightarrow> error + (ASTNode list \<times> nat)"
  and parse_block_loop ::
    "Token list \<Rightarrow> ASTNode list \<Rightarrow> nat \<Rightarrow> error + (ASTNode list \<times> nat)"
where
  "parse_statement tokens pos =
     (case peek tokens pos of
        Inl e \<Rightarrow> Inl e
      | Inr token \<Rightarrow>
          if is_variable (tok_value token) then
            (case consume tokens pos of
               Inl e \<Rightarrow> Inl e
             | Inr (t1, pos1) \<Rightarrow>
                 (case consume tokens pos1 of
                    Inl e \<Rightarrow> Inl e
                  | Inr (t2, pos2) \<Rightarrow>
                      (case parse_expression tokens pos2 of
                         Inl e \<Rightarrow> Inl e
                       | Inr (expr, pos3) \<Rightarrow> Inr (AssignNode (tok_value t1) expr, pos3))))
          else if tok_value token = kw_scrum then
            (case consume tokens pos of
               Inl e \<Rightarrow> Inl e
             | Inr (t1, pos1) \<Rightarrow>
                 (case parse_expression tokens pos1 of
                    Inl e \<Rightarrow> Inl e
                  | Inr (expr, pos2) \<Rightarrow> Inr (PrintNode expr, pos2)))
          else if tok_value token = kw_ip then
            (case consume tokens pos of
               Inl e \<Rightarrow> Inl e
             | Inr (t1, pos1) \<Rightarrow>
                 (case parse_expression tokens pos1 of
                    Inl e \<Rightarrow> Inl e
                  | Inr (cond, pos2) \<Rightarrow>
                      (case parse_block tokens pos2 of
                         Inl e \<Rightarrow> Inl e
                       | Inr (body, pos3) \<Rightarrow> Inr (IfNode cond body, pos3))))
          else if tok_value token = kw_mol then
            (case consume tokens pos of
               Inl e \<Rightarrow> Inl e
             | Inr (t1, pos1) \<Rightarrow>
                 (case parse_expression tokens pos1 of
                    Inl e \<Rightarrow> Inl e
                  | Inr (cond, pos2) \<Rightarrow>
                      (case parse_block tokens pos2 of
                         Inl e \<Rightarrow> Inl e
                       | Inr (body, pos3) \<Rightarrow> Inr (WhileNode cond body, pos3))))
          else if starts_with (tok_value token) kw_camp then
            (case consume tokens pos of
               Inl e \<Rightarrow> Inl e
             | Inr (t1, pos1) \<Rightarrow>
                 (case peek tokens pos1 of
                    Inl e \<Rightarrow> Inl e
                  | Inr t2 \<Rightarrow>
                      if tok_value t2 = ''['' then
                        (case parse_block tokens pos1 of
                           Inl e \<Rightarrow> Inl e
                         | Inr (body, pos2) \<Rightarrow> Inr (FuncDefNode (tok_value t1) body, pos2))
                      else Inr (FuncCallNode (tok_value t1), pos1)))
          else if tok_value token = kw_toegeun then
            (case consume tokens pos of
               Inl e \<Rightarrow> Inl e
             | Inr (t1, pos1) \<Rightarrow>
                 (case parse_expression tokens pos1 of
                    Inl e \<Rightarrow> Inl e
                  | Inr (expr, pos2) \<Rightarrow> Inr (ReturnNode expr, pos2)))
          else Inl (InvalidStatementStart (tok_value token)))"
| "parse_block tokens pos =
     (case consume tokens pos of
        Inl e \<Rightarrow> Inl e
      | Inr (t1, pos1) \<Rightarrow> parse_block_loop tokens [] pos1)"
| "parse_block_loop tokens statements pos =
     (case peek tokens pos of
        Inl e \<Rightarrow> Inl e
      | Inr t \<Rightarrow>
          if tok_value t \<noteq> '']'' then
            (case parse_statement tokens pos of
               Inl e \<Rightarrow> Inl e
             | Inr (stmt, pos1) \<Rightarrow> parse_block_loop tokens (statements @ [stmt]) pos1)
          else
            (case consume tokens pos of
               Inl e \<Rightarrow> Inl e
             | Inr (t1, pos1) \<Rightarrow> Inr (statements, pos1)))"
  by pat_completeness auto



lemma consume_eq_Inr:
  "consume tokens pos = Inr p \<longleftrightarrow> pos < length tokens \<and> p = (tokens ! pos, Suc pos)"
  by (auto simp: consume_def)

lemma peek_eq_Inr:
  "peek tokens pos = Inr t \<longleftrightarrow> pos < length tokens \<and> t = tokens ! pos"
  by (auto simp: peek_def)

lemma parse_advances_partial:
  "parse_statement_parse_block_parse_block_loop_dom (Inl (tokens, pos)) \<Longrightarrow>
     parse_statement tokens pos = Inr (n, pos') \<Longrightarrow> pos < pos'"
  "parse_statement_parse_block_parse_block_loop_dom (Inr (Inl (tokens, pos))) \<Longrightarrow>
     parse_block tokens pos = Inr (b, pos') \<Longrightarrow> pos < pos'"
  "parse_statement_parse_block_parse_block_loop_dom (Inr (Inr (tokens, statements, pos))) \<Longrightarrow>
     parse_block_loop tokens statements pos = Inr (b, pos') \<Longrightarrow> pos < pos'"
proof (induct tokens pos and tokens pos and tokens statements pos
       arbitrary: n pos' and b pos' and b pos'
       rule: parse_statement_parse_block_parse_block_loop.pinduct)
  case (1 tokens pos)
  note eq = "1.prems"[unfolded parse_statement.psimps[OF "1.hyps"(1)]]
  from eq obtain token where pk: "peek tokens pos = Inr token"
    by (cases "peek tokens pos") auto
  then have lt: "pos < length tokens" by (simp add: peek_eq_Inr)
  then have c: "consume tokens pos = Inr (tokens ! pos, Suc pos)"
    by (simp add: consume_def)
  let ?v = "tok_value token"
  consider (assign) "is_variable ?v"
    | (print) "\<not> is_variable ?v" "?v = kw_scrum"
    | (ifs) "\<not> is_variable ?v" "?v \<noteq> kw_scrum" "?v = kw_ip"
    | (whiles) "\<not> is_variable ?v" "?v \<noteq> kw_scrum" "?v \<noteq> kw_ip" "?v = kw_mol"
    | (func) "\<not> is_variable ?v" "?v \<noteq> kw_scrum" "?v \<noteq> kw_ip" "?v \<noteq> kw_mol"
        "starts_with ?v kw_camp"
    | (other) "\<not> is_variable ?v" "?v \<noteq> kw_scrum" "?v \<noteq> kw_ip" "?v \<noteq> kw_mol"
        "\<not> starts_with ?v kw_camp"
    by blast
  then show ?case
  proof cases
    case assign
    with eq pk c show ?thesis
      by (auto simp: consume_eq_Inr split: sum.splits dest!: parse_expression_Inr)
  next
    case print
    with eq pk c show ?thesis
      by (auto split: sum.splits dest!: parse_expression_Inr)
  next
    case ifs
    with eq pk c obtain cond pos2 body where
      e: "parse_expression tokens (Suc pos) = Inr (cond, pos2)" and
      b: "parse_block tokens pos2 = Inr (body, pos')"
      by (auto split: sum.splits)
    have "pos2 < pos'"
      using "1.hyps"(2)[OF pk ifs c refl e refl b] .
    with e show ?thesis by (auto dest!: parse_expression_Inr)
  next
    case whiles
    with eq pk c obtain cond pos2 body where
      e: "parse_expression tokens (Suc pos) = Inr (cond, pos2)" and
      b: "parse_block tokens pos2 = Inr (body, pos')"
      by (auto split: sum.splits)
    have "pos2 < pos'"
      using "1.hyps"(3)[OF pk whiles c refl e refl b] .
    with e show ?thesis by (auto dest!: parse_expression_Inr)
  next
    case func
    from eq pk c func obtain t2 where pk2: "peek tokens (Suc pos) = Inr t2"
      by (cases "peek tokens (Suc pos)") auto
    show ?thesis
    proof (cases "tok_value t2 = ''[''")
      case True
      with eq pk c func pk2 obtain body where
        b: "parse_block tokens (Suc pos) = Inr (body, pos')"
        by (auto split: sum.splits)
      have "Suc pos < pos'"
        using "1.hyps"(4)[OF pk func c refl pk2 True b] .
      then show ?thesis by simp
    next
      case False
      with eq pk c func pk2 show ?thesis by auto
    qed
  next
    case other
    with eq pk c show ?thesis
      by (auto split: sum.splits if_splits dest!: parse_expression_Inr)
  qed
next
  case (2 tokens pos)
  note eq = "2.prems"[unfolded parse_block.psimps[OF "2.hyps"(1)]]
  from eq obtain t1 pos1 where c: "consume tokens pos = Inr (t1, pos1)"
    by (cases "consume tokens pos") auto
  with eq have "parse_block_loop tokens [] pos1 = Inr (b, pos')" by simp
  from "2.hyps"(2)[OF c refl this] c show ?case
    by (simp add: consume_eq_Inr)
next
  case (3 tokens statements pos)
  note eq = "3.prems"[unfolded parse_block_loop.psimps[OF "3.hyps"(1)]]
  from eq obtain t where pk: "peek tokens pos = Inr t"
    by (cases "peek tokens pos") auto
  show ?case
  proof (cases "tok_value t \<noteq> '']''")
    case True
    with eq pk obtain stmt pos1 where
      s: "parse_statement tokens pos = Inr (stmt, pos1)" and
      r: "parse_block_loop tokens (statements @ [stmt]) pos1 = Inr (b, pos')"
      by (auto split: sum.splits)
    from "3.hyps"(2)[OF pk True s] "3.hyps"(3)[OF pk True s refl r]
    show ?thesis by simp
  next
    case False
    with eq pk show ?thesis
      by (auto simp: consume_eq_Inr split: sum.splits)
  qed
qed

text \<open>
  Every statement that is parsed consumes at least one token; this is what makes the loops
  of \<^verbatim>\<open>parse_block\<close> and \<^verbatim>\<open>parse\<close> stop.
\<close>

termination parse_statement
proof (relation "measure (\<lambda>x. case x of
          Inl (tokens, pos) \<Rightarrow> 3 * (length tokens - pos)
        | Inr (Inl (tokens, pos)) \<Rightarrow> 3 * (length tokens - pos) + 2
        | Inr (Inr (tokens, statements, pos)) \<Rightarrow> 3 * (length tokens - pos) + 1)",
       goal_cases)
  case 1
  show ?case by simp
next
  case (2 tokens pos b ba x y bb xa ya)
  then show ?case
    by (auto simp: consume_eq_Inr peek_eq_Inr dest!: parse_expression_Inr)
next
  case (3 tokens pos b ba x y bb xa ya)
  then show ?case
    by (auto simp: consume_eq_Inr peek_eq_Inr dest!: parse_expression_Inr)
next
  case (4 tokens pos b ba x y bb)
  then show ?case
    by (auto simp: consume_eq_Inr peek_eq_Inr)
next
  case (5 tokens pos b x y)
  then show ?case
    by (auto simp: consume_eq_Inr peek_eq_Inr)
next
  case (6 tokens statements pos b)
  then show ?case
    by (auto simp: consume_eq_Inr peek_eq_Inr)
next
  case (7 tokens statements pos b ba x y)
  then show ?case
    by (auto simp: consume_eq_Inr peek_eq_Inr dest!: parse_advances_partial(1))
qed


declare parse_statement.simps [simp del] parse_block.simps [simp del]
  parse_block_loop.simps [simp del]

lemma parse_dom_total:
  "parse_statement_parse_block_parse_block_loop_dom (Inl (tokens, pos))"
  "parse_statement_parse_block_parse_block_loop_dom (Inr (Inl (tokens, pos)))"
  "parse_statement_parse_block_parse_block_loop_dom (Inr (Inr (tokens, statements, pos)))"
  by (induct tokens pos and tokens pos and tokens statements pos
       rule: parse_statement_parse_block_parse_block_loop.induct)
     (auto intro: parse_statement_parse_block_parse_block_loop.domintros)

lemma parse_statement_advances:
  "parse_statement tokens pos = Inr (n, pos') \<Longrightarrow> pos < pos'"
  by (rule parse_advances_partial(1)[OF parse_dom_total(1)])

lemma parse_block_advances:
  "parse_block tokens pos = Inr (b, pos') \<Longrightarrow> pos < pos'"
  by (rule parse_advances_partial(2)[OF parse_dom_total(2)])

text \<open>The loop of \<^verbatim>\<open>Parser::parse\<close>, and \<^verbatim>\<open>parse\<close> itself, which starts at index 0.\<close>

function parse_loop :: "Token list \<Rightarrow> ASTNode list \<Rightarrow> nat \<Rightarrow> error + ASTNode list" where
  "parse_loop tokens statements pos =
     (case peek tokens pos of
        Inl e \<Rightarrow> Inl e
      | Inr t \<Rightarrow>
          if tok_type t \<noteq> END_OF_FILE then
            (case parse_statement tokens pos of
               Inl e \<Rightarrow> Inl e
             | Inr (stmt, pos1) \<Rightarrow> parse_loop tokens (statements @ [stmt]) pos1)
          else Inr statements)"
  by pat_completeness auto
termination
  by (relation "measure (\<lambda>(tokens, statements, pos). length tokens - pos)")
     (auto simp: peek_eq_Inr dest!: parse_statement_advances)

declare parse_loop.simps [simp del]

definition parse :: "Token list \<Rightarrow> error + ASTNode list" where
  "parse tokens = parse_loop tokens [] 0"

section \<open>The symbol namer\<close>

text \<open>
  The four globals of lines 110 to 113. A \<^verbatim>\<open>std::map\<close> is the list of its entries
  in the order its iterator visits them, the order of the keys, which for
  \<^verbatim>\<open>std::string\<close> is the lexicographic order of the bytes as unsigned values.
  The counters are \<^verbatim>\<open>int\<close>s that only count up from 0, one step for each new
  name; they are integers here, a source text with \<open>2\<^sup>3\<^sup>1\<close> different names being
  out of reach.
\<close>

record global_context =
  variable_map :: "(string \<times> string) list"
  var_counter :: int
  function_map :: "(string \<times> string) list"
  func_counter :: int

text \<open>\<^verbatim>\<open>m[k] = v\<close>: the entry is replaced, or inserted at its place in key order.\<close>

fun map_assign :: "(string \<times> string) list \<Rightarrow> string \<Rightarrow> string \<Rightarrow> (string \<times> string) list" where
  "map_assign [] k v = [(k, v)]"
| "map_assign ((k', v') # m) k v =
     (if k = k' then (k, v) # m
      else if k < k' then (k, v) # (k', v') # m
      else (k', v') # map_assign m k v)"

text \<open>
  Reading \<^verbatim>\<open>m[k]\<close>. For a key that is absent \<^verbatim>\<open>operator[]\<close> gives the empty
  string; both name generators read a key that is present.
\<close>

definition map_at :: "(string \<times> string) list \<Rightarrow> string \<Rightarrow> string" where
  "map_at m k = (case map_of m k of Some v \<Rightarrow> v | None \<Rightarrow> [])"

text \<open>\<^verbatim>\<open>std::to_string\<close> of an \<^verbatim>\<open>int\<close>: the decimal digits, with a minus sign
  for a negative number.\<close>

fun nat_to_string :: "nat \<Rightarrow> string" where
  "nat_to_string n =
     (if n < 10 then [''0123456789'' ! n]
      else nat_to_string (n div 10) @ [''0123456789'' ! (n mod 10)])"

declare nat_to_string.simps [simp del]

definition to_string :: "int \<Rightarrow> string" where
  "to_string i = (if i < 0 then ''-'' @ nat_to_string (nat (- i)) else nat_to_string (nat i))"

definition get_cpp_var :: "string \<Rightarrow> global_context \<Rightarrow> string \<times> global_context" where
  "get_cpp_var mol_var g =
     (let g1 = (if map_of (variable_map g) mol_var = None
                then g\<lparr>variable_map :=
                         map_assign (variable_map g) mol_var (''var_'' @ to_string (var_counter g)),
                       var_counter := var_counter g + 1\<rparr>
                else g)
      in (map_at (variable_map g1) mol_var, g1))"

definition get_cpp_func :: "string \<Rightarrow> global_context \<Rightarrow> string \<times> global_context" where
  "get_cpp_func mol_func g =
     (let g1 = (if map_of (function_map g) mol_func = None
                then g\<lparr>function_map :=
                         map_assign (function_map g) mol_func (''func_'' @ to_string (func_counter g)),
                       func_counter := func_counter g + 1\<rparr>
                else g)
      in (map_at (function_map g1) mol_func, g1))"

text \<open>The four assignments at the start of \<^verbatim>\<open>translate_to_cpp\<close>.\<close>

definition reset_context :: global_context where
  "reset_context =
     \<lparr>variable_map = [], var_counter = 0, function_map = [], func_counter = 0\<rparr>"

section \<open>The symbol collector\<close>

fun collect_symbols :: "ASTNode \<Rightarrow> global_context \<Rightarrow> global_context"
  and collect_symbols_body :: "ASTNode list \<Rightarrow> global_context \<Rightarrow> global_context"
where
  "collect_symbols (AssignNode var_name expr) g =
     collect_symbols expr (snd (get_cpp_var var_name g))"
| "collect_symbols (PrintNode expr) g = collect_symbols expr g"
| "collect_symbols (IfNode condition body) g =
     collect_symbols_body body (collect_symbols condition g)"
| "collect_symbols (WhileNode condition body) g =
     collect_symbols_body body (collect_symbols condition g)"
| "collect_symbols (FuncDefNode name body) g =
     collect_symbols_body body (snd (get_cpp_func name g))"
| "collect_symbols (FuncCallNode name) g = snd (get_cpp_func name g)"
| "collect_symbols (ReturnNode expr) g = collect_symbols expr g"
| "collect_symbols (BinaryOpNode left op right) g =
     collect_symbols right (collect_symbols left g)"
| "collect_symbols (VariableNode name) g = snd (get_cpp_var name g)"
| "collect_symbols (NumberNode v) g = g"
| "collect_symbols (StringNode v) g = g"
| "collect_symbols InputNode g = g"
| "collect_symbols_body [] g = g"
| "collect_symbols_body (stmt # stmts) g =
     collect_symbols_body stmts (collect_symbols stmt g)"

section \<open>The code generator\<close>

text \<open>
  Every \<^verbatim>\<open>generate\<close> method may call a name generator, which may write the
  globals, so it takes the globals and returns them with its text. Where the source joins
  strings with \<^verbatim>\<open>+\<close> the operands are taken from left to right (C++ does not fix
  their order; \<open>generate_keeps_context\<close> below shows that after the collector has run no
  call writes the globals, so the order is immaterial). \<^verbatim>\<open>generate_body\<close> is the
  loop over a body, with the text that starts each line.
\<close>

fun generate :: "ASTNode \<Rightarrow> global_context \<Rightarrow> string \<times> global_context"
  and generate_body :: "string \<Rightarrow> ASTNode list \<Rightarrow> global_context \<Rightarrow> string \<times> global_context"
where
  "generate (NumberNode v) g = (''MolObject('' @ v @ '')'', g)"
| "generate (StringNode v) g =
     (''MolObject(std::string('' @ [CHR 0x22] @ v @ [CHR 0x22] @ ''))'', g)"
| "generate (VariableNode name) g = get_cpp_var name g"
| "generate InputNode g = (''mollang_input()'', g)"
| "generate (BinaryOpNode left op right) g =
     (let (l, g1) = generate left g;
          (r, g2) = generate right g1
      in (''('' @ l @ '' '' @ op @ '' '' @ r @ '')'', g2))"
| "generate (AssignNode var_name expr) g =
     (let (v, g1) = get_cpp_var var_name g;
          (e, g2) = generate expr g1
      in (v @ '' = '' @ e @ '';'', g2))"
| "generate (PrintNode expr) g =
     (let (e, g1) = generate expr g in (''mollang_print('' @ e @ '');'', g1))"
| "generate (IfNode condition body) g =
     (let (c, g1) = generate condition g;
          (b, g2) = generate_body ''    '' body g1
      in (''if (std::get<bool>('' @ c @ ''.value)) {\<newline>'' @ b @ ''}'', g2))"
| "generate (WhileNode condition body) g =
     (let (c, g1) = generate condition g;
          (b, g2) = generate_body ''    '' body g1
      in (''while (std::get<bool>('' @ c @ ''.value)) {\<newline>'' @ b @ ''}'', g2))"
| "generate (FuncDefNode name body) g =
     (let (f, g1) = get_cpp_func name g;
          (b, g2) = generate_body [] body g1
      in (''MolObject '' @ f @ ''() {\<newline>'' @ b @ ''return MolObject();\<newline>'' @ ''}'', g2))"
| "generate (FuncCallNode name) g =
     (let (f, g1) = get_cpp_func name g in (f @ ''();'', g1))"
| "generate (ReturnNode expr) g =
     (let (e, g1) = generate expr g in (''return '' @ e @ '';'', g1))"
| "generate_body indent [] g = ([], g)"
| "generate_body indent (stmt # stmts) g =
     (let (t, g1) = generate stmt g;
          (r, g2) = generate_body indent stmts g1
      in (indent @ t @ ''\<newline>'' @ r, g2))"

text \<open>The raw string literal of lines 424 to 511.\<close>

definition preamble :: string where
  \<open>preamble = concat
    [''#include <iostream>\<newline>'',
     ''#include <string>\<newline>'',
     ''#include <vector>\<newline>'',
     ''#include <variant>\<newline>'',
     ''#include <stdexcept>\<newline>'',
     ''\<newline>'',
     ''// A variant type to handle Mollang's dynamic types\<newline>'',
     ''struct MolObject {\<newline>'',
     ''    std::variant<std::monostate, int, std::string, bool> value;\<newline>'',
     ''\<newline>'',
     ''    MolObject() : value(std::monostate{}) {}\<newline>'',
     ''    MolObject(int v) : value(v) {}\<newline>'',
     ''    MolObject(const std::string& v) : value(v) {}\<newline>'',
     ''    MolObject(const char* v) : value(std::string(v)) {}\<newline>'',
     ''    MolObject(bool v) : value(v) {}\<newline>'',
     ''};\<newline>'',
     ''\<newline>'',
     ''// Overloads for operators\<newline>'',
     ''MolObject operator+(const MolObject& a, const MolObject& b) {\<newline>'',
     ''    if (std::holds_alternative<int>(a.value) && std::holds_alternative<int>(b.value)) {\<newline>'',
     ''        return MolObject(std::get<int>(a.value) + std::get<int>(b.value));\<newline>'',
     ''    }\<newline>'',
     ''    if (std::holds_alternative<std::string>(a.value) && std::holds_alternative<std::string>(b.value)) {\<newline>'',
     ''        return MolObject(std::get<std::string>(a.value) + std::get<std::string>(b.value));\<newline>'',
     ''    }\<newline>'',
     ''    throw std::runtime_error("Unsupported operand types for +");\<newline>'',
     ''}\<newline>'',
     ''\<newline>'',
     ''MolObject operator*(const MolObject& a, const MolObject& b) {\<newline>'',
     ''    if (std::holds_alternative<std::string>(a.value) && std::holds_alternative<int>(b.value)) {\<newline>'',
     ''        std::string s = "";\<newline>'',
     ''        for (int i = 0; i < std::get<int>(b.value); ++i) {\<newline>'',
     ''            s += std::get<std::string>(a.value);\<newline>'',
     ''        }\<newline>'',
     ''        return MolObject(s);\<newline>'',
     ''    }\<newline>'',
     ''    if (std::holds_alternative<int>(a.value) && std::holds_alternative<int>(b.value)) {\<newline>'',
     ''        return MolObject(std::get<int>(a.value) * std::get<int>(b.value));\<newline>'',
     ''    }\<newline>'',
     ''    throw std::runtime_error("Unsupported operand types for *");\<newline>'',
     ''}\<newline>'',
     ''\<newline>'',
     ''MolObject operator<(const MolObject& a, const MolObject& b) {\<newline>'',
     ''    if (std::holds_alternative<int>(a.value) && std::holds_alternative<int>(b.value)) {\<newline>'',
     ''        return MolObject(std::get<int>(a.value) < std::get<int>(b.value));\<newline>'',
     ''    }\<newline>'',
     ''    throw std::runtime_error("Unsupported operand types for <");\<newline>'',
     ''}\<newline>'',
     ''\<newline>'',
     ''MolObject operator<=(const MolObject& a, const MolObject& b) {\<newline>'',
     ''    if (std::holds_alternative<int>(a.value) && std::holds_alternative<int>(b.value)) {\<newline>'',
     ''        return MolObject(std::get<int>(a.value) <= std::get<int>(b.value));\<newline>'',
     ''    }\<newline>'',
     ''    throw std::runtime_error("Unsupported operand types for <=");\<newline>'',
     ''}\<newline>'',
     ''\<newline>'',
     ''MolObject operator==(const MolObject& a, const MolObject& b) {\<newline>'',
     ''    if (std::holds_alternative<int>(a.value) && std::holds_alternative<int>(b.value)) {\<newline>'',
     ''        return MolObject(std::get<int>(a.value) == std::get<int>(b.value));\<newline>'',
     ''    }\<newline>'',
     ''    if (std::holds_alternative<std::string>(a.value) && std::holds_alternative<std::string>(b.value)) {\<newline>'',
     ''        return MolObject(std::get<std::string>(a.value) == std::get<std::string>(b.value));\<newline>'',
     ''    }\<newline>'',
     ''    return MolObject(false);\<newline>'',
     ''}\<newline>'',
     ''\<newline>'',
     ''// Helper functions\<newline>'',
     ''void mollang_print(const MolObject& obj) {\<newline>'',
     ''    if (std::holds_alternative<int>(obj.value)) {\<newline>'',
     ''        std::cout << std::get<int>(obj.value);\<newline>'',
     ''    } else if (std::holds_alternative<std::string>(obj.value)) {\<newline>'',
     ''        std::cout << std::get<std::string>(obj.value);\<newline>'',
     ''    } else if (std::holds_alternative<bool>(obj.value)) {\<newline>'',
     ''        std::cout << (std::get<bool>(obj.value) ? "true" : "false");\<newline>'',
     ''    }\<newline>'',
     ''    std::cout << std::endl;\<newline>'',
     ''}\<newline>'',
     ''\<newline>'',
     ''MolObject mollang_input() {\<newline>'',
     ''    std::string line;\<newline>'',
     ''    std::getline(std::cin, line);\<newline>'',
     ''    try {\<newline>'',
     ''        return MolObject(std::stoi(line));\<newline>'',
     ''    } catch (const std::invalid_argument&) {\<newline>'',
     ''        return MolObject(line);\<newline>'',
     ''    }\<newline>'',
     ''}\<newline>'']\<close>

fun is_FuncDefNode :: "ASTNode \<Rightarrow> bool" where
  "is_FuncDefNode (FuncDefNode name body) = True"
| "is_FuncDefNode node = False"

text \<open>The two loops over the entries of a map, lines 514 and 520.\<close>

definition function_prototypes :: "(string \<times> string) list \<Rightarrow> string" where
  "function_prototypes m = concat (map (\<lambda>pair. ''MolObject '' @ snd pair @ ''();\<newline>'') m)"

definition global_variables :: "(string \<times> string) list \<Rightarrow> string" where
  "global_variables m = concat (map (\<lambda>pair. ''MolObject '' @ snd pair @ '';\<newline>'') m)"

text \<open>The two loops over the top-level nodes, lines 526 and 534.\<close>

fun function_definitions :: "ASTNode list \<Rightarrow> global_context \<Rightarrow> string \<times> global_context" where
  "function_definitions [] g = ([], g)"
| "function_definitions (node # ast) g =
     (if is_FuncDefNode node then
        (let (t, g1) = generate node g;
             (r, g2) = function_definitions ast g1
         in (t @ ''\<newline>\<newline>'' @ r, g2))
      else function_definitions ast g)"

fun main_statements :: "ASTNode list \<Rightarrow> global_context \<Rightarrow> string \<times> global_context" where
  "main_statements [] g = ([], g)"
| "main_statements (node # ast) g =
     (if \<not> is_FuncDefNode node then
        (let (t, g1) = generate node g;
             (r, g2) = main_statements ast g1
         in (''    '' @ t @ ''\<newline>'' @ r, g2))
      else main_statements ast g)"

definition generate_cpp_code :: "ASTNode list \<Rightarrow> global_context \<Rightarrow> string \<times> global_context" where
  "generate_cpp_code ast g =
     (let protos = function_prototypes (function_map g);
          globals = global_variables (variable_map g);
          (defs, g1) = function_definitions ast g;
          (mains, g2) = main_statements ast g1
      in (preamble @ protos @ ''\<newline>'' @ globals @ ''\<newline>'' @ defs
            @ ''int main() {\<newline>'' @ mains @ ''    return 0;\<newline>'' @ ''}\<newline>'',
          g2))"

section \<open>The compiler\<close>

text \<open>
  \<^verbatim>\<open>translate_to_cpp\<close> takes the globals as the compilations before it left them and
  returns what it returns or throws, with the globals as it leaves them.
\<close>

definition translate_to_cpp :: "string \<Rightarrow> global_context \<Rightarrow> (error + string) \<times> global_context" where
  "translate_to_cpp mollang_code g =
     (let g0 = reset_context
      in case tokenize mollang_code of
           Inl e \<Rightarrow> (Inl e, g0)
         | Inr tokens \<Rightarrow>
             (case parse tokens of
                Inl e \<Rightarrow> (Inl e, g0)
              | Inr ast \<Rightarrow>
                  (let g1 = collect_symbols_body ast g0;
                       (out, g2) = generate_cpp_code ast g1
                   in (Inr out, g2))))"

section \<open>The states of the symbol namer\<close>

text \<open>
  Within one compilation the globals are written by the two name generators only. A state
  of the globals during a compilation is therefore the result of some sequence of calls of
  \<^verbatim>\<open>get_cpp_var\<close> and \<^verbatim>\<open>get_cpp_func\<close> from the reset state.
\<close>

datatype namer_call = CallVar string | CallFunc string

fun run_calls :: "namer_call list \<Rightarrow> global_context \<Rightarrow> global_context" where
  "run_calls [] g = g"
| "run_calls (CallVar name # calls) g = run_calls calls (snd (get_cpp_var name g))"
| "run_calls (CallFunc name # calls) g = run_calls calls (snd (get_cpp_func name g))"

text \<open>
  What holds of a map and its counter in every such state: the counter is not negative,
  every generated name is the prefix followed by a number below the counter, and no name is
  stored for two keys.
\<close>

definition names_wf :: "string \<Rightarrow> (string \<times> string) list \<Rightarrow> int \<Rightarrow> bool" where
  "names_wf prefix m counter \<longleftrightarrow>
     0 \<le> counter
     \<and> (\<forall>k v. map_of m k = Some v \<longrightarrow>
            (\<exists>i. 0 \<le> i \<and> i < counter \<and> v = prefix @ to_string i))
     \<and> (\<forall>k k' v. map_of m k = Some v \<and> map_of m k' = Some v \<longrightarrow> k = k')"

definition context_wf :: "global_context \<Rightarrow> bool" where
  "context_wf g \<longleftrightarrow>
     names_wf ''var_'' (variable_map g) (var_counter g)
     \<and> names_wf ''func_'' (function_map g) (func_counter g)"

section \<open>The names of an AST\<close>

text \<open>
  The source names of variables and of functions that occur in a node, the ones the
  collector passes to the name generators, and the names that the two maps hold.
\<close>

fun var_names :: "ASTNode \<Rightarrow> string set"
  and var_names_body :: "ASTNode list \<Rightarrow> string set"
where
  "var_names (NumberNode v) = {}"
| "var_names (StringNode v) = {}"
| "var_names (VariableNode name) = {name}"
| "var_names InputNode = {}"
| "var_names (BinaryOpNode left op right) = var_names left \<union> var_names right"
| "var_names (AssignNode var_name expr) = insert var_name (var_names expr)"
| "var_names (PrintNode expr) = var_names expr"
| "var_names (IfNode condition body) = var_names condition \<union> var_names_body body"
| "var_names (WhileNode condition body) = var_names condition \<union> var_names_body body"
| "var_names (FuncDefNode name body) = var_names_body body"
| "var_names (FuncCallNode name) = {}"
| "var_names (ReturnNode expr) = var_names expr"
| "var_names_body [] = {}"
| "var_names_body (stmt # stmts) = var_names stmt \<union> var_names_body stmts"

fun func_names :: "ASTNode \<Rightarrow> string set"
  and func_names_body :: "ASTNode list \<Rightarrow> string set"
where
  "func_names (NumberNode v) = {}"
| "func_names (StringNode v) = {}"
| "func_names (VariableNode name) = {}"
| "func_names InputNode = {}"
| "func_names (BinaryOpNode left op right) = func_names left \<union> func_names right"
| "func_names (AssignNode var_name expr) = func_names expr"
| "func_names (PrintNode expr) = func_names expr"
| "func_names (IfNode condition body) = func_names condition \<union> func_names_body body"
| "func_names (WhileNode condition body) = func_names condition \<union> func_names_body body"
| "func_names (FuncDefNode name body) = insert name (func_names_body body)"
| "func_names (FuncCallNode name) = {name}"
| "func_names (ReturnNode expr) = func_names expr"
| "func_names_body [] = {}"
| "func_names_body (stmt # stmts) = func_names stmt \<union> func_names_body stmts"

definition var_keys :: "global_context \<Rightarrow> string set" where
  "var_keys g = dom (map_of (variable_map g))"

definition func_keys :: "global_context \<Rightarrow> string set" where
  "func_keys g = dom (map_of (function_map g))"

text \<open>
  The \<^verbatim>\<open>FuncDefNode\<close>s of an AST at any depth, in the order in which a traversal
  meets them; \<^verbatim>\<open>generate_cpp_code\<close> itself looks at the top-level nodes only.
\<close>

fun func_defs :: "ASTNode \<Rightarrow> ASTNode list"
  and func_defs_body :: "ASTNode list \<Rightarrow> ASTNode list"
where
  "func_defs (FuncDefNode name body) = FuncDefNode name body # func_defs_body body"
| "func_defs (IfNode condition body) = func_defs_body body"
| "func_defs (WhileNode condition body) = func_defs_body body"
| "func_defs (NumberNode v) = []"
| "func_defs (StringNode v) = []"
| "func_defs (VariableNode name) = []"
| "func_defs InputNode = []"
| "func_defs (BinaryOpNode left op right) = []"
| "func_defs (AssignNode var_name expr) = []"
| "func_defs (PrintNode expr) = []"
| "func_defs (FuncCallNode name) = []"
| "func_defs (ReturnNode expr) = []"
| "func_defs_body [] = []"
| "func_defs_body (stmt # stmts) = func_defs stmt @ func_defs_body stmts"

section \<open>The string literals of an AST\<close>

text \<open>
  The values of the \<^verbatim>\<open>StringNode\<close>s of a node, and the text that
  \<^verbatim>\<open>StringNode::generate\<close> puts around a value (line 139).
\<close>

fun string_literals :: "ASTNode \<Rightarrow> string set"
  and string_literals_body :: "ASTNode list \<Rightarrow> string set"
where
  "string_literals (NumberNode v) = {}"
| "string_literals (StringNode v) = {v}"
| "string_literals (VariableNode name) = {}"
| "string_literals InputNode = {}"
| "string_literals (BinaryOpNode left op right) = string_literals left \<union> string_literals right"
| "string_literals (AssignNode var_name expr) = string_literals expr"
| "string_literals (PrintNode expr) = string_literals expr"
| "string_literals (IfNode condition body) =
     string_literals condition \<union> string_literals_body body"
| "string_literals (WhileNode condition body) =
     string_literals condition \<union> string_literals_body body"
| "string_literals (FuncDefNode name body) = string_literals_body body"
| "string_literals (FuncCallNode name) = {}"
| "string_literals (ReturnNode expr) = string_literals expr"
| "string_literals_body [] = {}"
| "string_literals_body (stmt # stmts) = string_literals stmt \<union> string_literals_body stmts"

text \<open>A text occurs in a document: the document is some text, then it, then some text.\<close>

definition occurs_in :: "string \<Rightarrow> string \<Rightarrow> bool" where
  "occurs_in t doc \<longleftrightarrow> (\<exists>pre post. doc = pre @ t @ post)"

definition string_wrapper :: "string \<Rightarrow> string" where
  "string_wrapper v = ''MolObject(std::string('' @ [CHR 0x22] @ v @ [CHR 0x22] @ ''))''"

section \<open>The tokens of an AST\<close>

text \<open>
  The parser builds a node from consecutive tokens. \<open>token_count\<close> is their number: one for
  each term, operator, keyword and function name, one for the token that
  \<^verbatim>\<open>parse_statement\<close> consumes after the variable of an assignment, and one each for the
  token that opens a block and the one that closes it. For a node built from the tokens at
  index \<open>pos\<close> on, \<open>term_tokens\<close> lists the indices of the tokens that are the terms of its
  expressions, each with the node of the term: these are the expression-term positions.
  \<open>reads_terms\<close> says that \<^verbatim>\<open>parse_simple_expr\<close> at each listed index returns the listed
  node.
\<close>

fun token_count :: "ASTNode \<Rightarrow> nat"
  and token_count_body :: "ASTNode list \<Rightarrow> nat"
where
  "token_count (NumberNode v) = 1"
| "token_count (StringNode v) = 1"
| "token_count (VariableNode x) = 1"
| "token_count InputNode = 1"
| "token_count (BinaryOpNode left op right) = token_count left + 1 + token_count right"
| "token_count (AssignNode x expr) = 2 + token_count expr"
| "token_count (PrintNode expr) = 1 + token_count expr"
| "token_count (IfNode cond body) = 1 + token_count cond + 1 + token_count_body body + 1"
| "token_count (WhileNode cond body) = 1 + token_count cond + 1 + token_count_body body + 1"
| "token_count (FuncDefNode f body) = 1 + 1 + token_count_body body + 1"
| "token_count (FuncCallNode f) = 1"
| "token_count (ReturnNode expr) = 1 + token_count expr"
| "token_count_body [] = 0"
| "token_count_body (stmt # stmts) = token_count stmt + token_count_body stmts"

fun term_tokens :: "ASTNode \<Rightarrow> nat \<Rightarrow> (nat \<times> ASTNode) list"
  and term_tokens_body :: "ASTNode list \<Rightarrow> nat \<Rightarrow> (nat \<times> ASTNode) list"
where
  "term_tokens (NumberNode v) pos = [(pos, NumberNode v)]"
| "term_tokens (StringNode v) pos = [(pos, StringNode v)]"
| "term_tokens (VariableNode x) pos = [(pos, VariableNode x)]"
| "term_tokens InputNode pos = [(pos, InputNode)]"
| "term_tokens (BinaryOpNode left op right) pos =
     term_tokens left pos @ term_tokens right (pos + token_count left + 1)"
| "term_tokens (AssignNode x expr) pos = term_tokens expr (pos + 2)"
| "term_tokens (PrintNode expr) pos = term_tokens expr (pos + 1)"
| "term_tokens (IfNode cond body) pos =
     term_tokens cond (pos + 1) @ term_tokens_body body (pos + 1 + token_count cond + 1)"
| "term_tokens (WhileNode cond body) pos =
     term_tokens cond (pos + 1) @ term_tokens_body body (pos + 1 + token_count cond + 1)"
| "term_tokens (FuncDefNode f body) pos = term_tokens_body body (pos + 1 + 1)"
| "term_tokens (FuncCallNode f) pos = []"
| "term_tokens (ReturnNode expr) pos = term_tokens expr (pos + 1)"
| "term_tokens_body [] pos = []"
| "term_tokens_body (stmt # stmts) pos =
     term_tokens stmt pos @ term_tokens_body stmts (pos + token_count stmt)"

definition reads_terms :: "Token list \<Rightarrow> (nat \<times> ASTNode) list \<Rightarrow> bool" where
  "reads_terms tokens terms \<longleftrightarrow>
     (\<forall>(p, node) \<in> set terms. parse_simple_expr tokens p = Inr (node, Suc p))"

section \<open>The variable-name pattern on code points\<close>

text \<open>
  The specification states the variable-name pattern on code points. This section writes
  that statement down, next to the byte-level function of the source, so that the two can
  be compared: \<open>utf8\<close> is the UTF-8 encoding of one code point, and
  \<open>variable_name_pattern\<close> holds of the one reserved glyph alone, or of at least two code
  points of which the first is the prefix glyph, the last the suffix glyph and all between
  them the filler glyph.
\<close>

definition utf8 :: "nat \<Rightarrow> string" where
  "utf8 cp =
     (if cp < 0x80 then [char_of cp]
      else if cp < 0x800 then [char_of (0xC0 + cp div 64), char_of (0x80 + cp mod 64)]
      else if cp < 0x10000 then
        [char_of (0xE0 + cp div 4096), char_of (0x80 + cp div 64 mod 64),
         char_of (0x80 + cp mod 64)]
      else
        [char_of (0xF0 + cp div 262144), char_of (0x80 + cp div 4096 mod 64),
         char_of (0x80 + cp div 64 mod 64), char_of (0x80 + cp mod 64)])"

definition variable_name_pattern :: "nat list \<Rightarrow> bool" where
  "variable_name_pattern cps =
     (cps = [0xBC25]
      \<or> (2 \<le> length cps \<and> hd cps = 0xBC14 \<and> last cps = 0xC555
          \<and> butlast (tl cps) = replicate (length cps - 2) 0xC544))"

section \<open>Example inputs\<close>




text \<open>The tokens of the expression 1 + 2 * 3, with the keywords of the source notation.\<close>

definition sum_product_example :: "Token list" where
  "sum_product_example =
     [\<lparr>tok_type = NUMBER, tok_value = ''1''\<rparr>,
      \<lparr>tok_type = KEYWORD, tok_value = kw_hap\<rparr>,
      \<lparr>tok_type = NUMBER, tok_value = ''2''\<rparr>,
      \<lparr>tok_type = KEYWORD, tok_value = kw_gop\<rparr>,
      \<lparr>tok_type = NUMBER, tok_value = ''3''\<rparr>,
      \<lparr>tok_type = END_OF_FILE, tok_value = []\<rparr>]"

text \<open>
  The AST of an \<^verbatim>\<open>if\<close> whose block defines a function, followed by the definition of a
  second function.
\<close>

definition nested_definition :: "ASTNode list" where
  "nested_definition =
     [IfNode (NumberNode ''1'') [FuncDefNode (kw_camp @ ''1'') []],
      FuncDefNode (kw_camp @ ''2'') []]"

text \<open>
  A program that assigns a variable, calls a function and only then defines it; the body of
  the function prints the variable.
\<close>

definition declared_example :: "ASTNode list" where
  "declared_example =
     [AssignNode glyph_bap (NumberNode ''1''),
      FuncCallNode (kw_camp @ ''1''),
      FuncDefNode (kw_camp @ ''1'') [PrintNode (VariableNode glyph_bap)]]"

text \<open>
  The tokens of an \<^verbatim>\<open>if\<close> whose block assigns a string that holds a double quote, a
  backslash and a newline.
\<close>

definition quoted_in_block_example :: "Token list" where
  "quoted_in_block_example =
     [\<lparr>tok_type = KEYWORD, tok_value = kw_ip\<rparr>,
      \<lparr>tok_type = NUMBER, tok_value = ''1''\<rparr>,
      \<lparr>tok_type = SYMBOL, tok_value = ''[''\<rparr>,
      \<lparr>tok_type = IDENTIFIER, tok_value = glyph_bap\<rparr>,
      \<lparr>tok_type = KEYWORD, tok_value = kw_eun\<rparr>,
      \<lparr>tok_type = STRING, tok_value = [CHR 0x22, CHR 0x5C, CHR 0x0A]\<rparr>,
      \<lparr>tok_type = SYMBOL, tok_value = '']''\<rparr>,
      \<lparr>tok_type = END_OF_FILE, tok_value = []\<rparr>]"

section \<open>Properties of the compiler\<close>

subsection \<open>Repeated compilation\<close>

text \<open>
  Claim C1. Compiling a source text gives the same result whatever the globals held before:
  \<^verbatim>\<open>translate_to_cpp\<close> starts from the reset globals (both maps empty, both
  counters 0), so two compilations of one text return the same document, or throw the same
  exception, and leave the same globals; in particular compiling it again right after the
  first compilation gives the same text.
\<close>

theorem compilation_independent_of_earlier_compilations:
  "translate_to_cpp code g1 = translate_to_cpp code g2
   \<and> fst (translate_to_cpp code (snd (translate_to_cpp code g1))) = fst (translate_to_cpp code g1)
   \<and> variable_map reset_context = [] \<and> var_counter reset_context = 0
   \<and> function_map reset_context = [] \<and> func_counter reset_context = 0"
  by (simp add: translate_to_cpp_def reset_context_def)

subsection \<open>String literals\<close>

lemma isspace_quote: "q = CHR 0x22 \<or> q = CHR 0x27 \<Longrightarrow> \<not> isspace q \<and> q \<noteq> CHR ''['' \<and> q \<noteq> CHR '']''"
  by (auto simp: isspace_def)

lemma occurs_in_self: "occurs_in t (x @ t @ y)"
  unfolding occurs_in_def by blast

lemma occurs_in_Cons: "occurs_in t a \<Longrightarrow> occurs_in t (c # a)"
  unfolding occurs_in_def by (metis append_Cons)

lemma occurs_in_append_left: "occurs_in t a \<Longrightarrow> occurs_in t (x @ a)"
  unfolding occurs_in_def by (metis append.assoc)

lemma occurs_in_append_right: "occurs_in t a \<Longrightarrow> occurs_in t (a @ y)"
  unfolding occurs_in_def by (metis append.assoc)

lemma generate_text:
  "fst (generate (BinaryOpNode left op right) g) =
     ''('' @ fst (generate left g) @ ('' '' @ op @ '' '')
       @ fst (generate right (snd (generate left g))) @ '')''"
  "fst (generate (AssignNode var_name expr) g) =
     (fst (get_cpp_var var_name g) @ '' = '')
       @ fst (generate expr (snd (get_cpp_var var_name g))) @ '';''"
  "fst (generate (PrintNode expr) g) = ''mollang_print('' @ fst (generate expr g) @ '');''"
  "fst (generate (ReturnNode expr) g) = ''return '' @ fst (generate expr g) @ '';''"
  "fst (generate (IfNode condition body) g) =
     ''if (std::get<bool>('' @ fst (generate condition g) @ ''.value)) {\<newline>''
       @ fst (generate_body ''    '' body (snd (generate condition g))) @ ''}''"
  "fst (generate (WhileNode condition body) g) =
     ''while (std::get<bool>('' @ fst (generate condition g) @ ''.value)) {\<newline>''
       @ fst (generate_body ''    '' body (snd (generate condition g))) @ ''}''"
  "fst (generate (FuncDefNode name body) g) =
     (''MolObject '' @ fst (get_cpp_func name g) @ ''() {\<newline>'')
       @ fst (generate_body [] body (snd (get_cpp_func name g)))
       @ ''return MolObject();\<newline>}''"
  "fst (generate_body indent (stmt # stmts) g) =
     indent @ fst (generate stmt g) @ ''\<newline>''
       @ fst (generate_body indent stmts (snd (generate stmt g)))"
  by (simp_all add: split_beta)

lemma string_literal_in_text:
  "v \<in> string_literals n \<Longrightarrow> occurs_in (string_wrapper v) (fst (generate n g))"
  "v \<in> string_literals_body ns \<Longrightarrow>
     occurs_in (string_wrapper v) (fst (generate_body indent ns g))"
proof (induction n and ns arbitrary: g and indent g rule: string_literals_string_literals_body.induct)
  case (2 w)
  then have "v = w" by simp
  then show ?case
    using occurs_in_self[of "string_wrapper v" "[]" "[]"] by (simp add: string_wrapper_def)
next
  case (5 left op right)
  from "5.prems" have "v \<in> string_literals left \<or> v \<in> string_literals right" by simp
  then show ?case
  proof
    assume "v \<in> string_literals left"
    then have "occurs_in (string_wrapper v) (fst (generate left g))" by (rule "5.IH"(1))
    then show ?thesis
      unfolding generate_text
      by (intro occurs_in_append_left occurs_in_append_right)
  next
    assume "v \<in> string_literals right"
    then have "occurs_in (string_wrapper v) (fst (generate right (snd (generate left g))))"
      by (rule "5.IH"(2))
    then show ?thesis
      unfolding generate_text
      by (intro occurs_in_append_left occurs_in_append_right)
  qed
next
  case (6 var_name expr)
  then have "occurs_in (string_wrapper v) (fst (generate expr (snd (get_cpp_var var_name g))))"
    by simp
  then show ?case
    unfolding generate_text by (intro occurs_in_append_left occurs_in_append_right)
next
  case (7 expr)
  then have "occurs_in (string_wrapper v) (fst (generate expr g))" by simp
  then show ?case
    unfolding generate_text by (intro occurs_in_append_left occurs_in_append_right)
next
  case (8 condition body)
  from "8.prems" have "v \<in> string_literals condition \<or> v \<in> string_literals_body body" by simp
  then show ?case
  proof
    assume "v \<in> string_literals condition"
    then have "occurs_in (string_wrapper v) (fst (generate condition g))" by (rule "8.IH"(1))
    then show ?thesis
      unfolding generate_text by (intro occurs_in_append_left occurs_in_append_right)
  next
    assume "v \<in> string_literals_body body"
    then have "occurs_in (string_wrapper v)
        (fst (generate_body ''    '' body (snd (generate condition g))))"
      by (rule "8.IH"(2))
    then show ?thesis
      unfolding generate_text by (intro occurs_in_append_left occurs_in_append_right)
  qed
next
  case (9 condition body)
  from "9.prems" have "v \<in> string_literals condition \<or> v \<in> string_literals_body body" by simp
  then show ?case
  proof
    assume "v \<in> string_literals condition"
    then have "occurs_in (string_wrapper v) (fst (generate condition g))" by (rule "9.IH"(1))
    then show ?thesis
      unfolding generate_text by (intro occurs_in_append_left occurs_in_append_right)
  next
    assume "v \<in> string_literals_body body"
    then have "occurs_in (string_wrapper v)
        (fst (generate_body ''    '' body (snd (generate condition g))))"
      by (rule "9.IH"(2))
    then show ?thesis
      unfolding generate_text by (intro occurs_in_append_left occurs_in_append_right)
  qed
next
  case (10 name body)
  then have "occurs_in (string_wrapper v)
      (fst (generate_body [] body (snd (get_cpp_func name g))))" by simp
  then show ?case
    unfolding generate_text by (intro occurs_in_append_left occurs_in_append_right)
next
  case (12 expr)
  then have "occurs_in (string_wrapper v) (fst (generate expr g))" by simp
  then show ?case
    unfolding generate_text by (intro occurs_in_append_left occurs_in_append_right)
next
  case (14 stmt stmts)
  from "14.prems" have "v \<in> string_literals stmt \<or> v \<in> string_literals_body stmts" by simp
  then show ?case
  proof
    assume "v \<in> string_literals stmt"
    then have "occurs_in (string_wrapper v) (fst (generate stmt g))" by (rule "14.IH"(1))
    then show ?thesis
      unfolding generate_text by (intro occurs_in_append_left occurs_in_append_right)
  next
    assume "v \<in> string_literals_body stmts"
    then have "occurs_in (string_wrapper v)
        (fst (generate_body indent stmts (snd (generate stmt g))))"
      by (rule "14.IH"(2))
    then show ?thesis
      unfolding generate_text by (intro occurs_in_append_left occurs_in_append_right)
  qed
qed simp_all


lemma string_literal_in_sections:
  "v \<in> string_literals_body ast \<Longrightarrow>
     occurs_in (string_wrapper v) (fst (function_definitions ast g))
     \<or> occurs_in (string_wrapper v) (fst (main_statements ast g'))"
proof (induction ast arbitrary: g g')
  case Nil
  then show ?case by simp
next
  case (Cons node ast)
  from Cons.prems have "v \<in> string_literals node \<or> v \<in> string_literals_body ast" by simp
  then show ?case
  proof
    assume n: "v \<in> string_literals node"
    show ?thesis
    proof (cases "is_FuncDefNode node")
      case True
      from n have "occurs_in (string_wrapper v) (fst (generate node g))"
        by (rule string_literal_in_text)
      then have "occurs_in (string_wrapper v) (fst (function_definitions (node # ast) g))"
        using True by (simp add: split_beta occurs_in_append_right)
      then show ?thesis ..
    next
      case False
      from n have "occurs_in (string_wrapper v) (fst (generate node g'))"
        by (rule string_literal_in_text)
      then have "occurs_in (string_wrapper v) (''    '' @ fst (generate node g') @ ''\<newline>''
          @ fst (main_statements ast (snd (generate node g'))))"
        by (intro occurs_in_append_left occurs_in_append_right)
      then have "occurs_in (string_wrapper v) (fst (main_statements (node # ast) g'))"
        using False by (simp add: split_beta)
      then show ?thesis ..
    qed
  next
    assume a: "v \<in> string_literals_body ast"
    show ?thesis
    proof (cases "is_FuncDefNode node")
      case True
      from Cons.IH[OF a, of "snd (generate node g)" g']
      show ?thesis
      proof
        assume "occurs_in (string_wrapper v) (fst (function_definitions ast (snd (generate node g))))"
        then have "occurs_in (string_wrapper v) ((fst (generate node g) @ ''\<newline>\<newline>'')
            @ fst (function_definitions ast (snd (generate node g))))"
          by (rule occurs_in_append_left)
        then have "occurs_in (string_wrapper v) (fst (function_definitions (node # ast) g))"
          using True by (simp add: split_beta)
        then show ?thesis ..
      next
        assume "occurs_in (string_wrapper v) (fst (main_statements ast g'))"
        then show ?thesis using True by simp
      qed
    next
      case False
      from Cons.IH[OF a, of g "snd (generate node g')"]
      show ?thesis
      proof
        assume "occurs_in (string_wrapper v) (fst (function_definitions ast g))"
        then show ?thesis using False by simp
      next
        assume "occurs_in (string_wrapper v) (fst (main_statements ast (snd (generate node g'))))"
        then have "occurs_in (string_wrapper v) ((''    '' @ fst (generate node g') @ ''\<newline>'')
            @ fst (main_statements ast (snd (generate node g'))))"
          by (rule occurs_in_append_left)
        then have "occurs_in (string_wrapper v) (fst (main_statements (node # ast) g'))"
          using False by (simp add: split_beta)
        then show ?thesis ..
      qed
    qed
  qed
qed

lemma string_literal_in_document:
  assumes "v \<in> string_literals_body ast"
  shows "occurs_in (string_wrapper v) (fst (generate_cpp_code ast g))"
proof -
  let ?g1 = "snd (function_definitions ast g)"
  let ?head = "preamble @ function_prototypes (function_map g) @ ''\<newline>''
      @ global_variables (variable_map g) @ ''\<newline>''"
  have doc: "fst (generate_cpp_code ast g) =
      ?head @ fst (function_definitions ast g)
        @ (''int main() {\<newline>'' @ fst (main_statements ast ?g1)
            @ ''    return 0;\<newline>'' @ ''}\<newline>'')"
    by (simp add: generate_cpp_code_def split_beta)
  from string_literal_in_sections[OF assms, of g ?g1] show ?thesis
  proof
    assume "occurs_in (string_wrapper v) (fst (function_definitions ast g))"
    then show ?thesis unfolding doc
      by (intro occurs_in_append_left occurs_in_append_right)
  next
    assume "occurs_in (string_wrapper v) (fst (main_statements ast ?g1))"
    then have "occurs_in (string_wrapper v) (''int main() {\<newline>'' @ fst (main_statements ast ?g1)
            @ ''    return 0;\<newline>'' @ ''}\<newline>'')"
      by (intro occurs_in_append_left occurs_in_append_right)
    then have "occurs_in (string_wrapper v) ((?head @ fst (function_definitions ast g))
        @ (''int main() {\<newline>'' @ fst (main_statements ast ?g1)
            @ ''    return 0;\<newline>'' @ ''}\<newline>''))"
      by (rule occurs_in_append_left)
    then show ?thesis unfolding doc by simp
  qed
qed


lemma reads_terms_append [simp]:
  "reads_terms tokens (xs @ ys) \<longleftrightarrow> reads_terms tokens xs \<and> reads_terms tokens ys"
  by (auto simp: reads_terms_def)

lemma reads_terms_Nil [simp]: "reads_terms tokens []"
  by (simp add: reads_terms_def)

lemma token_count_body_append [simp]:
  "token_count_body (xs @ ys) = token_count_body xs + token_count_body ys"
  by (induction xs) simp_all

lemma term_tokens_body_append [simp]:
  "term_tokens_body (xs @ ys) pos =
     term_tokens_body xs pos @ term_tokens_body ys (pos + token_count_body xs)"
  by (induction xs arbitrary: pos) (simp_all add: add.assoc)

lemma parse_simple_expr_term:
  assumes "parse_simple_expr tokens pos = Inr (node, pos1)"
  shows "token_count node = 1 \<and> term_tokens node pos = [(pos, node)] \<and> pos1 = Suc pos"
  using assms
  by (auto simp: parse_simple_expr_def consume_def split: sum.splits if_splits)

lemma parse_expression_loop_terms:
  "parse_expression_loop tokens left pos = Inr (n, pos') \<Longrightarrow>
   pos = start + token_count left \<Longrightarrow> reads_terms tokens (term_tokens left start) \<Longrightarrow>
     pos' = start + token_count n \<and> reads_terms tokens (term_tokens n start)"
proof (induction tokens left pos rule: parse_expression_loop.induct)
  case (1 tokens left pos)
  from "1.prems"(1) obtain t where t: "peek tokens pos = Inr t"
    by (subst (asm) parse_expression_loop.simps) (simp split: sum.splits)
  show ?case
  proof (cases "tok_type t \<noteq> KEYWORD \<or> expression_stop (tok_value t)
                 \<or> tok_value t = ''['' \<or> tok_value t = '']''")
    case True
    with "1.prems" t show ?thesis
      by (subst (asm) parse_expression_loop.simps) (auto split: if_splits)
  next
    case False
    with "1.prems"(1) t obtain t1 pos1 op right pos2 where
      c: "consume tokens pos = Inr (t1, pos1)" and
      g: "get_operator (tok_value t) = Inr op" and
      s: "parse_simple_expr tokens pos1 = Inr (right, pos2)" and
      r: "parse_expression_loop tokens (BinaryOpNode left op right) pos2 = Inr (n, pos')"
      by (subst (asm) parse_expression_loop.simps) (auto split: sum.splits if_splits)
    from False have f: "\<not> tok_type t \<noteq> KEYWORD" "\<not> expression_stop (tok_value t)"
      "\<not> (tok_value t = ''['' \<or> tok_value t = '']'')" by auto
    have p1: "pos1 = Suc pos" using c by (simp add: consume_Inr)
    note st = parse_simple_expr_term[OF s]
    have a: "pos2 = start + token_count (BinaryOpNode left op right)"
      using st p1 "1.prems"(2) by simp
    have b: "reads_terms tokens (term_tokens (BinaryOpNode left op right) start)"
      using st p1 "1.prems"(2,3) s by (simp add: reads_terms_def)
    show ?thesis
      using "1.IH"[OF t f c refl g s refl r a b] .
  qed
qed

lemma parse_expression_terms:
  assumes "parse_expression tokens pos = Inr (n, pos')"
  shows "pos' = pos + token_count n \<and> reads_terms tokens (term_tokens n pos)"
proof -
  from assms obtain left pos1 where
    s: "parse_simple_expr tokens pos = Inr (left, pos1)" and
    r: "parse_expression_loop tokens left pos1 = Inr (n, pos')"
    by (auto simp: parse_expression_def split: sum.splits)
  note st = parse_simple_expr_term[OF s]
  show ?thesis
    by (rule parse_expression_loop_terms[OF r]) (use st s in \<open>simp_all add: reads_terms_def\<close>)
qed

lemma parse_statement_terms:
  "parse_statement tokens pos = Inr (n, pos') \<Longrightarrow>
     pos' = pos + token_count n \<and> reads_terms tokens (term_tokens n pos)"
  "parse_block tokens pos = Inr (b, pos') \<Longrightarrow>
     pos' = pos + 1 + token_count_body b + 1 \<and> reads_terms tokens (term_tokens_body b (pos + 1))"
  "parse_block_loop tokens statements pos = Inr (b, pos') \<Longrightarrow>
     \<exists>new. b = statements @ new \<and> pos' = pos + token_count_body new + 1
       \<and> reads_terms tokens (term_tokens_body new pos)"
proof (induct tokens pos and tokens pos and tokens statements pos
       arbitrary: n pos' and b pos' and b pos'
       rule: parse_statement_parse_block_parse_block_loop.induct)
  case (1 tokens pos)
  note eq = "1.prems"[unfolded parse_statement.simps[of tokens pos]]
  from eq obtain token where pk: "peek tokens pos = Inr token"
    by (cases "peek tokens pos") auto
  then have lt: "pos < length tokens" by (simp add: peek_eq_Inr)
  then have c: "consume tokens pos = Inr (tokens ! pos, Suc pos)"
    by (simp add: consume_def)
  let ?v = "tok_value token"
  consider (assign) "is_variable ?v"
    | (print) "\<not> is_variable ?v" "?v = kw_scrum"
    | (ifs) "\<not> is_variable ?v" "?v \<noteq> kw_scrum" "?v = kw_ip"
    | (whiles) "\<not> is_variable ?v" "?v \<noteq> kw_scrum" "?v \<noteq> kw_ip" "?v = kw_mol"
    | (func) "\<not> is_variable ?v" "?v \<noteq> kw_scrum" "?v \<noteq> kw_ip" "?v \<noteq> kw_mol"
        "starts_with ?v kw_camp"
    | (other) "\<not> is_variable ?v" "?v \<noteq> kw_scrum" "?v \<noteq> kw_ip" "?v \<noteq> kw_mol"
        "\<not> starts_with ?v kw_camp"
    by blast
  then show ?case
  proof cases
    case assign
    with eq pk c obtain expr where
      e: "parse_expression tokens (Suc (Suc pos)) = Inr (expr, pos')" and
      n: "n = AssignNode (tok_value (tokens ! pos)) expr"
      by (auto simp: consume_eq_Inr split: sum.splits)
    from parse_expression_terms[OF e] n show ?thesis by simp
  next
    case print
    with eq pk c obtain expr where
      e: "parse_expression tokens (Suc pos) = Inr (expr, pos')" and
      n: "n = PrintNode expr"
      by (auto split: sum.splits)
    from parse_expression_terms[OF e] n show ?thesis by simp
  next
    case ifs
    with eq pk c obtain cond pos2 body where
      e: "parse_expression tokens (Suc pos) = Inr (cond, pos2)" and
      b: "parse_block tokens pos2 = Inr (body, pos')" and
      n: "n = IfNode cond body"
      by (auto split: sum.splits)
    from "1.hyps"(1)[OF pk ifs c refl e refl b] parse_expression_terms[OF e] n
    show ?thesis by simp
  next
    case whiles
    with eq pk c obtain cond pos2 body where
      e: "parse_expression tokens (Suc pos) = Inr (cond, pos2)" and
      b: "parse_block tokens pos2 = Inr (body, pos')" and
      n: "n = WhileNode cond body"
      by (auto split: sum.splits)
    from "1.hyps"(2)[OF pk whiles c refl e refl b] parse_expression_terms[OF e] n
    show ?thesis by simp
  next
    case func
    from eq pk c func obtain t2 where pk2: "peek tokens (Suc pos) = Inr t2"
      by (cases "peek tokens (Suc pos)") auto
    show ?thesis
    proof (cases "tok_value t2 = ''[''")
      case True
      with eq pk c func pk2 obtain body where
        b: "parse_block tokens (Suc pos) = Inr (body, pos')" and
        n: "n = FuncDefNode (tok_value (tokens ! pos)) body"
        by (auto split: sum.splits)
      from "1.hyps"(3)[OF pk func c refl pk2 True b] n show ?thesis by simp
    next
      case False
      with eq pk c func pk2 show ?thesis by auto
    qed
  next
    case other
    with eq pk c obtain expr where
      e: "parse_expression tokens (Suc pos) = Inr (expr, pos')" and
      n: "n = ReturnNode expr"
      by (auto split: sum.splits if_splits)
    from parse_expression_terms[OF e] n show ?thesis by simp
  qed
next
  case (2 tokens pos)
  note eq = "2.prems"[unfolded parse_block.simps[of tokens pos]]
  from eq obtain t1 pos1 where c: "consume tokens pos = Inr (t1, pos1)"
    by (cases "consume tokens pos") auto
  with eq have r: "parse_block_loop tokens [] pos1 = Inr (b, pos')" by simp
  from "2.hyps"[OF c refl r] c show ?case
    by (auto simp: consume_eq_Inr)
next
  case (3 tokens statements pos)
  note eq = "3.prems"[unfolded parse_block_loop.simps[of tokens statements pos]]
  from eq obtain t where pk: "peek tokens pos = Inr t"
    by (cases "peek tokens pos") auto
  show ?case
  proof (cases "tok_value t \<noteq> '']''")
    case True
    with eq pk obtain stmt pos1 where
      s: "parse_statement tokens pos = Inr (stmt, pos1)" and
      r: "parse_block_loop tokens (statements @ [stmt]) pos1 = Inr (b, pos')"
      by (auto split: sum.splits)
    from "3.hyps"(2)[OF pk True s refl r] obtain new where
      new: "b = (statements @ [stmt]) @ new" "pos' = pos1 + token_count_body new + 1"
        "reads_terms tokens (term_tokens_body new pos1)" by blast
    from "3.hyps"(1)[OF pk True s] have
      st: "pos1 = pos + token_count stmt" "reads_terms tokens (term_tokens stmt pos)" by simp_all
    show ?thesis
      using new st by (intro exI[of _ "stmt # new"]) simp
  next
    case False
    with eq pk show ?thesis
      by (auto simp: consume_eq_Inr split: sum.splits)
  qed
qed

lemma parse_loop_terms:
  "parse_loop tokens statements pos = Inr ast \<Longrightarrow>
     \<exists>new. ast = statements @ new \<and> reads_terms tokens (term_tokens_body new pos)"
proof (induction tokens statements pos rule: parse_loop.induct)
  case (1 tokens statements pos)
  note eq = "1.prems"[unfolded parse_loop.simps[of tokens statements pos]]
  from eq obtain t where pk: "peek tokens pos = Inr t"
    by (cases "peek tokens pos") auto
  show ?case
  proof (cases "tok_type t \<noteq> END_OF_FILE")
    case True
    with eq pk obtain stmt pos1 where
      s: "parse_statement tokens pos = Inr (stmt, pos1)" and
      r: "parse_loop tokens (statements @ [stmt]) pos1 = Inr ast"
      by (auto split: sum.splits)
    from "1.IH"[OF pk True s refl r] obtain new where
      new: "ast = (statements @ [stmt]) @ new"
        "reads_terms tokens (term_tokens_body new pos1)" by blast
    from parse_statement_terms(1)[OF s] have
      st: "pos1 = pos + token_count stmt" "reads_terms tokens (term_tokens stmt pos)" by simp_all
    show ?thesis
      using new st by (intro exI[of _ "stmt # new"]) simp
  next
    case False
    with eq pk show ?thesis by auto
  qed
qed

lemma parse_terms:
  assumes "parse tokens = Inr ast" and "(p, node) \<in> set (term_tokens_body ast 0)"
  shows "parse_simple_expr tokens p = Inr (node, Suc p)"
proof -
  from parse_loop_terms[OF assms(1)[unfolded parse_def]]
  have "reads_terms tokens (term_tokens_body ast 0)" by simp
  with assms(2) show ?thesis by (auto simp: reads_terms_def)
qed

lemma term_tokens_string_literal:
  "(p, StringNode v) \<in> set (term_tokens n pos) \<Longrightarrow> v \<in> string_literals n"
  "(p, StringNode v) \<in> set (term_tokens_body b pos) \<Longrightarrow> v \<in> string_literals_body b"
  by (induction n pos and b pos rule: term_tokens_term_tokens_body.induct) auto

lemma tokenize_loop_quoted:
  assumes "q = CHR 0x22 \<or> q = CHR 0x27" and "q \<notin> set body"
  shows "tokenize_loop (q # body @ q # rest) =
           (case tokenize_loop rest of
              Inl e \<Rightarrow> Inl e
            | Inr ts \<Rightarrow> Inr (\<lparr>tok_type = STRING, tok_value = body\<rparr> # ts))"
proof -
  have nq: "\<And>d. d \<in> set body \<Longrightarrow> d \<noteq> q"
    using assms(2) by auto
  have tw: "takeWhile (\<lambda>d. d \<noteq> q) (body @ q # rest) = body"
    using takeWhile_append2[of body "\<lambda>d. d \<noteq> q" "q # rest"] nq by simp
  have dw: "dropWhile (\<lambda>d. d \<noteq> q) (body @ q # rest) = q # rest"
    using dropWhile_append2[of body "\<lambda>d. d \<noteq> q" "q # rest"] nq by simp
  show ?thesis
    using isspace_quote[OF assms(1)] assms(1) by (simp add: tw dw split: sum.splits)
qed

lemma tokenize_loop_print_keyword:
  "tokenize_loop (kw_scrum @ '' '' @ rest) =
      (case tokenize_loop rest of
         Inl e \<Rightarrow> Inl e
       | Inr ts \<Rightarrow> Inr (\<lparr>tok_type = KEYWORD, tok_value = kw_scrum\<rparr> # ts))"
  by (simp add: kw_scrum_def word_char_def isspace_def classify_word_def is_keyword_def
        kw_eun_def kw_ip_def kw_mol_def kw_camp_def kw_toegeun_def split: sum.splits)

lemma tokenize_print_string:
  assumes "q = CHR 0x22 \<or> q = CHR 0x27" and "q \<notin> set body"
  shows "tokenize (kw_scrum @ '' '' @ q # body @ [q]) =
     Inr [\<lparr>tok_type = KEYWORD, tok_value = kw_scrum\<rparr>,
          \<lparr>tok_type = STRING, tok_value = body\<rparr>,
          \<lparr>tok_type = END_OF_FILE, tok_value = []\<rparr>]"
  unfolding tokenize_def tokenize_loop_print_keyword tokenize_loop_quoted[OF assms]
  by simp

lemma parse_print_string:
  "parse [\<lparr>tok_type = KEYWORD, tok_value = kw_scrum\<rparr>,
          \<lparr>tok_type = STRING, tok_value = body\<rparr>,
          \<lparr>tok_type = END_OF_FILE, tok_value = []\<rparr>] = Inr [PrintNode (StringNode body)]"
proof -
  let ?ts = "[\<lparr>tok_type = KEYWORD, tok_value = kw_scrum\<rparr>,
          \<lparr>tok_type = STRING, tok_value = body\<rparr>,
          \<lparr>tok_type = END_OF_FILE, tok_value = []\<rparr>]"
  have nv: "\<not> is_variable kw_scrum"
    by (simp add: is_variable_def kw_scrum_def glyph_bap_def starts_with_def glyph_ba_def)
  have l: "parse_expression_loop ?ts (StringNode body) (Suc (Suc 0)) =
      Inr (StringNode body, Suc (Suc 0))"
    by (subst parse_expression_loop.simps) (simp add: peek_def)
  have e: "parse_expression ?ts (Suc 0) = Inr (StringNode body, Suc (Suc 0))"
    by (simp add: parse_expression_def parse_simple_expr_def consume_def l)
  have s: "parse_statement ?ts 0 = Inr (PrintNode (StringNode body), Suc (Suc 0))"
    by (subst parse_statement.simps) (simp add: peek_def consume_def nv e)
  have "parse_loop ?ts [] 0 = parse_loop ?ts [PrintNode (StringNode body)] (Suc (Suc 0))"
    by (subst parse_loop.simps) (simp add: peek_def s)
  also have "\<dots> = Inr [PrintNode (StringNode body)]"
    by (subst parse_loop.simps) (simp add: peek_def)
  finally show ?thesis by (simp add: parse_def)
qed

lemma translate_print_string:
  assumes "q = CHR 0x22 \<or> q = CHR 0x27" and "q \<notin> set body"
  shows "translate_to_cpp (kw_scrum @ '' '' @ q # body @ [q]) g =
     (Inr (preamble @ ''\<newline>\<newline>int main() {\<newline>    mollang_print(MolObject(std::string(''
             @ [CHR 0x22] @ body @ [CHR 0x22]
             @ '')));\<newline>    return 0;\<newline>}\<newline>''),
      reset_context)"
  using tokenize_print_string[OF assms]
  by (simp add: translate_to_cpp_def parse_print_string
        generate_cpp_code_def reset_context_def function_prototypes_def global_variables_def)


lemma translate_to_cpp_document:
  assumes "tokenize code = Inr tokens" and "parse tokens = Inr ast"
  shows "translate_to_cpp code g =
     (Inr (fst (generate_cpp_code ast (collect_symbols_body ast reset_context))),
      snd (generate_cpp_code ast (collect_symbols_body ast reset_context)))"
  using assms by (simp add: translate_to_cpp_def split_beta Let_def)

text \<open>
  Claim C10, as the code has it. A span between two equal quote characters becomes a
  \<^verbatim>\<open>STRING\<close> token that holds the characters between them as they are. In a program
  that is parsed, a \<^verbatim>\<open>STRING\<close> token at an expression-term position is read by
  \<^verbatim>\<open>parse_simple_expr\<close> as a \<^verbatim>\<open>StringNode\<close> with its characters, and this is the
  node that the AST has for the term. The node is emitted as the wrapper text with the
  characters between its two double quotes, nothing escaped or changed, and the document
  that the compiler returns for the program holds this wrapper text. The source text of a
  print statement with a quoted span compiles to the document whose \<^verbatim>\<open>main\<close> prints the
  wrapper text of the span.
\<close>

theorem string_literal_spliced_verbatim:
  assumes "q = CHR 0x22 \<or> q = CHR 0x27" and "q \<notin> set body"
    and "tokenize code = Inr tokens" and "parse tokens = Inr ast"
    and "(p, node) \<in> set (term_tokens_body ast 0)"
    and "tokens ! p = \<lparr>tok_type = STRING, tok_value = body\<rparr>"
  shows "tokenize (q # body @ q # rest) =
           (case tokenize rest of
              Inl e \<Rightarrow> Inl e
            | Inr ts \<Rightarrow> Inr (\<lparr>tok_type = STRING, tok_value = body\<rparr> # ts))
         \<and> parse_simple_expr tokens p = Inr (StringNode body, Suc p)
         \<and> node = StringNode body
         \<and> generate (StringNode body) g =
             (''MolObject(std::string('' @ [CHR 0x22] @ body @ [CHR 0x22] @ ''))'', g)
         \<and> (\<exists>pre post g1. translate_to_cpp code g =
               (Inr (pre @ ''MolObject(std::string('' @ [CHR 0x22] @ body @ [CHR 0x22] @ ''))''
                       @ post), g1))
         \<and> translate_to_cpp (kw_scrum @ '' '' @ q # body @ [q]) g =
             (Inr (preamble @ ''\<newline>\<newline>int main() {\<newline>    mollang_print(''
                     @ ''MolObject(std::string('' @ [CHR 0x22] @ body @ [CHR 0x22] @ ''))''
                     @ '');\<newline>    return 0;\<newline>}\<newline>''),
              reset_context)"
proof -
  have 1: "tokenize (q # body @ q # rest) =
           (case tokenize rest of
              Inl e \<Rightarrow> Inl e
            | Inr ts \<Rightarrow> Inr (\<lparr>tok_type = STRING, tok_value = body\<rparr> # ts))"
    unfolding tokenize_def by (rule tokenize_loop_quoted[OF assms(1,2)])
  note r = parse_terms[OF assms(4,5)]
  then have "p < length tokens" by (simp add: parse_simple_expr_Inr)
  then have 2: "parse_simple_expr tokens p = Inr (StringNode body, Suc p)"
    using assms(6) by (simp add: parse_simple_expr_def consume_def)
  with r have 3: "node = StringNode body" by simp
  with assms(5) have lit: "body \<in> string_literals_body ast"
    by (simp add: term_tokens_string_literal(2))
  have 4: "\<exists>pre post g1. translate_to_cpp code g =
               (Inr (pre @ ''MolObject(std::string('' @ [CHR 0x22] @ body @ [CHR 0x22] @ ''))''
                       @ post), g1)"
    using string_literal_in_document[OF lit, of "collect_symbols_body ast reset_context"]
    unfolding translate_to_cpp_document[OF assms(3,4)] occurs_in_def string_wrapper_def
    by auto
  have 5: "translate_to_cpp (kw_scrum @ '' '' @ q # body @ [q]) g =
             (Inr (preamble @ ''\<newline>\<newline>int main() {\<newline>    mollang_print(''
                     @ ''MolObject(std::string('' @ [CHR 0x22] @ body @ [CHR 0x22] @ ''))''
                     @ '');\<newline>    return 0;\<newline>}\<newline>''),
              reset_context)"
    using translate_print_string[OF assms(1,2), of g] by simp
  from 1 2 3 4 5 show ?thesis by simp
qed

theorem string_literal_spliced_verbatim_witness:
  "tokenize (kw_ip @ '' 1 [ '' @ glyph_bap @ '' '' @ kw_eun @ '' ''
              @ CHR 0x27 # [CHR 0x22, CHR 0x5C, CHR 0x0A] @ CHR 0x27 # '' ]'') =
     Inr quoted_in_block_example
   \<and> parse quoted_in_block_example =
     Inr [IfNode (NumberNode ''1'')
            [AssignNode glyph_bap (StringNode [CHR 0x22, CHR 0x5C, CHR 0x0A])]]
   \<and> term_tokens_body
       [IfNode (NumberNode ''1'')
          [AssignNode glyph_bap (StringNode [CHR 0x22, CHR 0x5C, CHR 0x0A])]] 0 =
     [(1, NumberNode ''1''), (5, StringNode [CHR 0x22, CHR 0x5C, CHR 0x0A])]
   \<and> parse_simple_expr quoted_in_block_example 5 =
     Inr (StringNode [CHR 0x22, CHR 0x5C, CHR 0x0A], 6)
   \<and> (\<exists>pre post g1.
        translate_to_cpp (kw_ip @ '' 1 [ '' @ glyph_bap @ '' '' @ kw_eun @ '' ''
              @ CHR 0x27 # [CHR 0x22, CHR 0x5C, CHR 0x0A] @ CHR 0x27 # '' ]'') reset_context =
          (Inr (pre @ ''MolObject(std::string('' @ [CHR 0x22] @ [CHR 0x22, CHR 0x5C, CHR 0x0A]
                  @ [CHR 0x22] @ ''))'' @ post), g1))
   \<and> fst (translate_to_cpp (kw_ip @ '' 1 [ '' @ glyph_bap @ '' '' @ kw_eun @ '' ''
              @ CHR 0x27 # [CHR 0x22, CHR 0x5C, CHR 0x0A] @ CHR 0x27 # '' ]'') reset_context) =
       Inr (preamble @ ''\<newline>MolObject var_0;\<newline>\<newline>int main() {\<newline>    if (std::get<bool>(MolObject(1).value)) {\<newline>    var_0 = ''
              @ ''MolObject(std::string('' @ [CHR 0x22] @ [CHR 0x22, CHR 0x5C, CHR 0x0A]
              @ [CHR 0x22] @ ''))'' @ '';\<newline>}\<newline>    return 0;\<newline>}\<newline>'')
   \<and> translate_to_cpp (kw_scrum @ '' '' @ CHR 0x27 # [CHR 0x22, CHR 0x5C, CHR 0x0A] @ [CHR 0x27])
        reset_context =
       (Inr (preamble @ ''\<newline>\<newline>int main() {\<newline>    mollang_print(''
               @ ''MolObject(std::string('' @ [CHR 0x22] @ [CHR 0x22, CHR 0x5C, CHR 0x0A]
               @ [CHR 0x22] @ ''))'' @ '');\<newline>    return 0;\<newline>}\<newline>''),
        reset_context)"
proof -
  let ?b = "[CHR 0x22, CHR 0x5C, CHR 0x0A]"
  let ?code = "kw_ip @ '' 1 [ '' @ glyph_bap @ '' '' @ kw_eun @ '' ''
              @ CHR 0x27 # ?b @ CHR 0x27 # '' ]''"
  let ?ast = "[IfNode (NumberNode ''1'') [AssignNode glyph_bap (StringNode ?b)]]"
  define g where "g = collect_symbols_body ?ast reset_context"
  have t: "tokenize ?code = Inr quoted_in_block_example" by code_simp
  have p: "parse quoted_in_block_example = Inr ?ast" by code_simp
  have l: "term_tokens_body ?ast 0 = [(1, NumberNode ''1''), (5, StringNode ?b)]" by simp
  have m: "(5, StringNode ?b) \<in> set (term_tokens_body ?ast 0)" by simp
  have k: "quoted_in_block_example ! 5 = \<lparr>tok_type = STRING, tok_value = ?b\<rparr>"
    by (simp add: quoted_in_block_example_def)
  have q: "CHR 0x27 = CHR 0x22 \<or> CHR 0x27 = CHR 0x27" "CHR 0x27 \<notin> set ?b" by simp_all
  have g: "g = \<lparr>variable_map = [(glyph_bap, ''var_0'')], var_counter = 1,
                function_map = [], func_counter = 0\<rparr>"
    unfolding g_def by code_simp
  have v: "get_cpp_var glyph_bap g = (''var_0'', g)"
    unfolding g by (simp add: get_cpp_var_def map_at_def)
  have ps: "function_prototypes (function_map g) = []"
    unfolding g by (simp add: function_prototypes_def)
  have vs: "global_variables (variable_map g) = ''MolObject var_0;\<newline>''"
    unfolding g by (simp add: global_variables_def)
  have d: "fst (generate_cpp_code ?ast g) =
       preamble @ ''\<newline>MolObject var_0;\<newline>\<newline>int main() {\<newline>    if (std::get<bool>(MolObject(1).value)) {\<newline>    var_0 = ''
              @ ''MolObject(std::string('' @ [CHR 0x22] @ ?b
              @ [CHR 0x22] @ ''))'' @ '';\<newline>}\<newline>    return 0;\<newline>}\<newline>''"
    by (simp add: generate_cpp_code_def ps vs v split_beta)
  have e: "fst (translate_to_cpp ?code reset_context) = Inr (fst (generate_cpp_code ?ast g))"
    unfolding translate_to_cpp_document[OF t p] g_def by simp
  from string_literal_spliced_verbatim[OF q t p m k, of "[]" reset_context] t p l
    e[unfolded d]
  show ?thesis by (simp add: tokenize_def)
qed

text \<open>
  Claim C10 as it is stated fails for a \<^verbatim>\<open>STRING\<close> token at the start of a
  statement: \<^verbatim>\<open>parse_statement\<close> looks at the text of the token only. A quoted
  word that starts with the function marker is compiled as the call of a function, and the
  quoted print keyword as the keyword; in both documents the characters of the token are
  in no wrapper text.
\<close>

theorem quoted_keyword_counterexample:
  "tokenize ([CHR 0x27] @ kw_camp @ [CHR 0x22] @ [CHR 0x27]) =
     Inr [\<lparr>tok_type = STRING, tok_value = kw_camp @ [CHR 0x22]\<rparr>,
          \<lparr>tok_type = END_OF_FILE, tok_value = []\<rparr>]
   \<and> fst (translate_to_cpp ([CHR 0x27] @ kw_camp @ [CHR 0x22] @ [CHR 0x27]) reset_context) =
       Inr (preamble @
         ''MolObject func_0();\<newline>\<newline>\<newline>int main() {\<newline>    func_0();\<newline>    return 0;\<newline>}\<newline>'')
   \<and> tokenize ([CHR 0x22] @ kw_scrum @ [CHR 0x22] @ '' 1'') =
     Inr [\<lparr>tok_type = STRING, tok_value = kw_scrum\<rparr>,
          \<lparr>tok_type = NUMBER, tok_value = ''1''\<rparr>,
          \<lparr>tok_type = END_OF_FILE, tok_value = []\<rparr>]
   \<and> fst (translate_to_cpp ([CHR 0x22] @ kw_scrum @ [CHR 0x22] @ '' 1'') reset_context) =
       Inr (preamble @
         ''\<newline>\<newline>int main() {\<newline>    mollang_print(MolObject(1));\<newline>    return 0;\<newline>}\<newline>'')"
proof -
  let ?c = "[CHR 0x27] @ kw_camp @ [CHR 0x22] @ [CHR 0x27]"
  let ?tc = "[\<lparr>tok_type = STRING, tok_value = kw_camp @ [CHR 0x22]\<rparr>,
          \<lparr>tok_type = END_OF_FILE, tok_value = []\<rparr>]"
  let ?s = "[CHR 0x22] @ kw_scrum @ [CHR 0x22] @ '' 1''"
  let ?ts = "[\<lparr>tok_type = STRING, tok_value = kw_scrum\<rparr>,
          \<lparr>tok_type = NUMBER, tok_value = ''1''\<rparr>,
          \<lparr>tok_type = END_OF_FILE, tok_value = []\<rparr>]"
  have t1: "tokenize ?c = Inr ?tc" by code_simp
  have p1: "parse ?tc = Inr [FuncCallNode (kw_camp @ [CHR 0x22])]" by code_simp
  have c1: "collect_symbols_body [FuncCallNode (kw_camp @ [CHR 0x22])] reset_context =
      \<lparr>variable_map = [], var_counter = 0,
       function_map = [(kw_camp @ [CHR 0x22], ''func_0'')], func_counter = 1\<rparr>"
    by code_simp
  have g1: "fst (generate_cpp_code [FuncCallNode (kw_camp @ [CHR 0x22])]
      \<lparr>variable_map = [], var_counter = 0,
       function_map = [(kw_camp @ [CHR 0x22], ''func_0'')], func_counter = 1\<rparr>) =
      preamble @
         ''MolObject func_0();\<newline>\<newline>\<newline>int main() {\<newline>    func_0();\<newline>    return 0;\<newline>}\<newline>''"
    by (simp add: generate_cpp_code_def function_prototypes_def global_variables_def
          get_cpp_func_def map_at_def split_beta)
  have d1: "fst (translate_to_cpp ?c reset_context) =
       Inr (preamble @
         ''MolObject func_0();\<newline>\<newline>\<newline>int main() {\<newline>    func_0();\<newline>    return 0;\<newline>}\<newline>'')"
  proof -
    have "fst (generate_cpp_code [FuncCallNode (kw_camp @ [CHR 0x22])]
        (collect_symbols_body [FuncCallNode (kw_camp @ [CHR 0x22])] reset_context)) =
      preamble @
         ''MolObject func_0();\<newline>\<newline>\<newline>int main() {\<newline>    func_0();\<newline>    return 0;\<newline>}\<newline>''"
      unfolding c1 by (rule g1)
    then show ?thesis
      unfolding translate_to_cpp_def t1 by (simp add: p1 split_beta Let_def del: collect_symbols.simps)
  qed
  have t2: "tokenize ?s = Inr ?ts" by code_simp
  have p2: "parse ?ts = Inr [PrintNode (NumberNode ''1'')]" by code_simp
  have g2: "fst (generate_cpp_code [PrintNode (NumberNode ''1'')] reset_context) =
      preamble @
        ''\<newline>\<newline>int main() {\<newline>    mollang_print(MolObject(1));\<newline>    return 0;\<newline>}\<newline>''"
    by (simp add: generate_cpp_code_def reset_context_def
          function_prototypes_def global_variables_def split_beta)
  have d2: "fst (translate_to_cpp ?s reset_context) =
       Inr (preamble @
         ''\<newline>\<newline>int main() {\<newline>    mollang_print(MolObject(1));\<newline>    return 0;\<newline>}\<newline>'')"
    unfolding translate_to_cpp_def t2 by (simp add: p2 g2 split_beta Let_def)
  from t1 d1 t2 d2 show ?thesis by blast
qed

subsection \<open>Classification of words\<close>

text \<open>
  Claim C6. The word \<^verbatim>\<open>99999999999\<close> is no keyword and no variable name;
  \<^verbatim>\<open>std::stoi\<close> throws \<^verbatim>\<open>std::out_of_range\<close> for it, which the
  \<^verbatim>\<open>catch\<close> clause of \<^verbatim>\<open>tokenize\<close> does not name, so the lexer fails
  instead of producing a token.
\<close>

theorem out_of_range_word_aborts_lexing:
  "tokenize ''99999999999'' = Inl StoiOutOfRange"
  by code_simp

subsection \<open>Statements that start with a variable\<close>

text \<open>
  Claim C7. The source text of a variable name followed by \<^verbatim>\<open>5 7\<close> has no
  assignment keyword, and the parser accepts it as the assignment of 7: the token after
  the variable is consumed without being looked at.
\<close>

theorem assignment_keyword_not_checked:
  "tokenize (glyph_ba @ glyph_ap @ '' 5 7'') =
     Inr [\<lparr>tok_type = IDENTIFIER, tok_value = glyph_ba @ glyph_ap\<rparr>,
          \<lparr>tok_type = NUMBER, tok_value = ''5''\<rparr>,
          \<lparr>tok_type = NUMBER, tok_value = ''7''\<rparr>,
          \<lparr>tok_type = END_OF_FILE, tok_value = []\<rparr>]
   \<and> parse [\<lparr>tok_type = IDENTIFIER, tok_value = glyph_ba @ glyph_ap\<rparr>,
          \<lparr>tok_type = NUMBER, tok_value = ''5''\<rparr>,
          \<lparr>tok_type = NUMBER, tok_value = ''7''\<rparr>,
          \<lparr>tok_type = END_OF_FILE, tok_value = []\<rparr>]
       = Inr [AssignNode (glyph_ba @ glyph_ap) (NumberNode ''7'')]"
  by code_simp

subsection \<open>Blocks that are not closed\<close>












text \<open>
  The token that closes a block is found by the statements of the block, not by a count of
  brackets: the token that \<^verbatim>\<open>parse_statement\<close> consumes after the variable of an
  assignment may be an open bracket, and then the block of the function below is closed
  by the one close bracket although two brackets are opened.
\<close>

lemma bracket_after_variable_not_counted:
  "tokenize (kw_camp @ ''1 [ '' @ glyph_bap @ '' [ 5 ]'') =
     Inr [\<lparr>tok_type = IDENTIFIER, tok_value = kw_camp @ ''1''\<rparr>,
          \<lparr>tok_type = SYMBOL, tok_value = ''[''\<rparr>,
          \<lparr>tok_type = IDENTIFIER, tok_value = glyph_bap\<rparr>,
          \<lparr>tok_type = SYMBOL, tok_value = ''[''\<rparr>,
          \<lparr>tok_type = NUMBER, tok_value = ''5''\<rparr>,
          \<lparr>tok_type = SYMBOL, tok_value = '']''\<rparr>,
          \<lparr>tok_type = END_OF_FILE, tok_value = []\<rparr>]
   \<and> parse_block
        [\<lparr>tok_type = IDENTIFIER, tok_value = kw_camp @ ''1''\<rparr>,
          \<lparr>tok_type = SYMBOL, tok_value = ''[''\<rparr>,
          \<lparr>tok_type = IDENTIFIER, tok_value = glyph_bap\<rparr>,
          \<lparr>tok_type = SYMBOL, tok_value = ''[''\<rparr>,
          \<lparr>tok_type = NUMBER, tok_value = ''5''\<rparr>,
          \<lparr>tok_type = SYMBOL, tok_value = '']''\<rparr>,
          \<lparr>tok_type = END_OF_FILE, tok_value = []\<rparr>] 1 =
       Inr ([AssignNode glyph_bap (NumberNode ''5'')], 6)"
  by code_simp




subsection \<open>Expressions\<close>

lemma get_operator_stop:
  "expression_stop v \<or> v = ''['' \<or> v = '']'' \<Longrightarrow> get_operator v = Inl (UnknownOperator v)"
  unfolding expression_stop_def
  by (elim disjE)
     (simp_all add: get_operator_def kw_deotsem_def kw_hap_def kw_deohagi_def
        kw_gopsem_def kw_gop_def kw_gat_def kw_jak_def kw_gatjak_def kw_jakgat_def
        kw_eun_def kw_ip_def kw_mol_def kw_scrum_def kw_camp_def kw_toegeun_def)

lemma get_operator_not_stop:
  "get_operator v = Inr op \<Longrightarrow> \<not> expression_stop v \<and> v \<noteq> ''['' \<and> v \<noteq> '']''"
  using get_operator_stop[of v] by auto

lemma parse_expression_loop_stop:
  assumes "pos < length tokens"
    and "tok_type (tokens ! pos) \<noteq> KEYWORD \<or> expression_stop (tok_value (tokens ! pos))"
  shows "parse_expression_loop tokens left pos = Inr (left, pos)"
  using assms by (subst parse_expression_loop.simps) (auto simp: peek_def)

lemma parse_expression_loop_step:
  assumes "pos < length tokens"
    and "tok_type (tokens ! pos) = KEYWORD"
    and "get_operator (tok_value (tokens ! pos)) = Inr op"
    and "parse_simple_expr tokens (Suc pos) = Inr (right, pos')"
  shows "parse_expression_loop tokens left pos =
           parse_expression_loop tokens (BinaryOpNode left op right) pos'"
  using assms get_operator_not_stop[OF assms(3)]
  by (subst parse_expression_loop.simps) (simp add: peek_def consume_def)

text \<open>
  Claim C4. Five tokens, a term, an operator keyword, a term, an operator keyword and a
  term, followed by a token that ends the expression (one that is no keyword, or a keyword
  that starts a statement), are parsed as the second operator applied to the first
  operation and the third term, and never as the first operator applied to the first term
  and the second operation; the text emitted has the parentheses of that grouping.
\<close>

theorem expression_flat_left_associative:
  assumes "parse_simple_expr tokens pos = Inr (a, pos + 1)"
    and "tok_type (tokens ! (pos + 1)) = KEYWORD"
    and "get_operator (tok_value (tokens ! (pos + 1))) = Inr op1"
    and "parse_simple_expr tokens (pos + 2) = Inr (b, pos + 3)"
    and "tok_type (tokens ! (pos + 3)) = KEYWORD"
    and "get_operator (tok_value (tokens ! (pos + 3))) = Inr op2"
    and "parse_simple_expr tokens (pos + 4) = Inr (c, pos + 5)"
    and "pos + 5 < length tokens"
    and "tok_type (tokens ! (pos + 5)) \<noteq> KEYWORD
         \<or> expression_stop (tok_value (tokens ! (pos + 5)))"
  shows "parse_expression tokens pos = Inr (BinaryOpNode (BinaryOpNode a op1 b) op2 c, pos + 5)
         \<and> parse_expression tokens pos \<noteq> Inr (BinaryOpNode a op1 (BinaryOpNode b op2 c), pos + 5)
         \<and> fst (generate (BinaryOpNode (BinaryOpNode a op1 b) op2 c) g) =
             (let (ta, ga) = generate a g; (tb, gb) = generate b ga; (tc, gc) = generate c gb
              in ''(('' @ ta @ '' '' @ op1 @ '' '' @ tb @ '') '' @ op2 @ '' '' @ tc @ '')'')"
proof -
  have s1: "parse_expression_loop tokens a (pos + 1) =
              parse_expression_loop tokens (BinaryOpNode a op1 b) (pos + 3)"
    using parse_expression_loop_step[of "pos + 1" tokens op1 b "pos + 3" a] assms
    by (simp add: numeral_3_eq_3 numeral_2_eq_2)
  have s2: "parse_expression_loop tokens (BinaryOpNode a op1 b) (pos + 3) =
              parse_expression_loop tokens (BinaryOpNode (BinaryOpNode a op1 b) op2 c) (pos + 5)"
    using parse_expression_loop_step[of "pos + 3" tokens op2 c "pos + 5" "BinaryOpNode a op1 b"] assms
    by (simp add: eval_nat_numeral)
  have s3: "parse_expression_loop tokens (BinaryOpNode (BinaryOpNode a op1 b) op2 c) (pos + 5) =
              Inr (BinaryOpNode (BinaryOpNode a op1 b) op2 c, pos + 5)"
    using parse_expression_loop_stop[of "pos + 5" tokens] assms by simp
  have p: "parse_expression tokens pos = Inr (BinaryOpNode (BinaryOpNode a op1 b) op2 c, pos + 5)"
    using assms(1) s1 s2 s3 by (simp add: parse_expression_def)
  have "BinaryOpNode a op1 b \<noteq> a"
    by (induction a arbitrary: op1 b) auto
  with p have n: "parse_expression tokens pos \<noteq> Inr (BinaryOpNode a op1 (BinaryOpNode b op2 c), pos + 5)"
    by simp
  have "fst (generate (BinaryOpNode (BinaryOpNode a op1 b) op2 c) g) =
             (let (ta, ga) = generate a g; (tb, gb) = generate b ga; (tc, gc) = generate c gb
              in ''(('' @ ta @ '' '' @ op1 @ '' '' @ tb @ '') '' @ op2 @ '' '' @ tc @ '')'')"
    by (simp add: split_beta Let_def)
  with p n show ?thesis by blast
qed

theorem expression_flat_left_associative_witness:
  "parse_expression sum_product_example 0 =
     Inr (BinaryOpNode (BinaryOpNode (NumberNode ''1'') ''+'' (NumberNode ''2'')) ''*''
            (NumberNode ''3''), 5)
   \<and> parse_expression sum_product_example 0 \<noteq>
     Inr (BinaryOpNode (NumberNode ''1'') ''+'' (BinaryOpNode (NumberNode ''2'') ''*''
            (NumberNode ''3'')), 5)
   \<and> fst (generate (BinaryOpNode (BinaryOpNode (NumberNode ''1'') ''+'' (NumberNode ''2'')) ''*''
            (NumberNode ''3'')) reset_context) = ''((MolObject(1) + MolObject(2)) * MolObject(3))''"
proof -
  have 1: "parse_simple_expr sum_product_example 0 = Inr (NumberNode ''1'', 0 + 1)"
    by (simp add: parse_simple_expr_def consume_def sum_product_example_def)
  have 2: "tok_type (sum_product_example ! (0 + 1)) = KEYWORD"
    by (simp add: sum_product_example_def)
  have 3: "get_operator (tok_value (sum_product_example ! (0 + 1))) = Inr ''+''"
    by (simp add: sum_product_example_def get_operator_def kw_hap_def kw_deotsem_def)
  have 4: "parse_simple_expr sum_product_example (0 + 2) = Inr (NumberNode ''2'', 0 + 3)"
    by (simp add: parse_simple_expr_def consume_def sum_product_example_def)
  have 5: "tok_type (sum_product_example ! (0 + 3)) = KEYWORD"
    by (simp add: sum_product_example_def)
  have 6: "get_operator (tok_value (sum_product_example ! (0 + 3))) = Inr ''*''"
    by (simp add: sum_product_example_def get_operator_def kw_hap_def kw_deotsem_def
          kw_deohagi_def kw_gop_def kw_gopsem_def)
  have 7: "parse_simple_expr sum_product_example (0 + 4) = Inr (NumberNode ''3'', 0 + 5)"
    by (simp add: parse_simple_expr_def consume_def sum_product_example_def)
  have 8: "0 + 5 < length sum_product_example"
    by (simp add: sum_product_example_def)
  have 9: "tok_type (sum_product_example ! (0 + 5)) \<noteq> KEYWORD
         \<or> expression_stop (tok_value (sum_product_example ! (0 + 5)))"
    by (simp add: sum_product_example_def)
  from expression_flat_left_associative[OF 1 2 3 4 5 6 7 8 9, of reset_context]
  show ?thesis by simp
qed

subsection \<open>The variable-name pattern\<close>

lemma utf8_glyphs:
  "utf8 0xBC25 = glyph_bap" "utf8 0xBC14 = glyph_ba" "utf8 0xC555 = glyph_ap"
  "utf8 0xC544 = glyph_a"
  by (simp_all add: utf8_def glyph_bap_def glyph_ba_def glyph_ap_def glyph_a_def char_of_def bit_0)

lemma length_concat_replicate_glyph_a:
  "length (concat (replicate n glyph_a)) = 3 * n"
  by (induction n) (simp_all add: glyph_a_def)

lemma is_variable_loop_middle:
  "length pre = i \<Longrightarrow>
   is_variable_loop (pre @ m @ glyph_ap) i \<longleftrightarrow> (\<exists>n. m = concat (replicate n glyph_a))"
proof (induction "length m" arbitrary: m pre i rule: less_induct)
  case less
  have lap: "length glyph_ap = 3" by (simp add: glyph_ap_def)
  consider (empty) "m = []" | (one) x where "m = [x]" | (two) x y where "m = [x, y]"
    | (more) x y z m' where "m = x # y # z # m'"
    by (cases m rule: list.exhaust; (cases "tl m"; (cases "tl (tl m)"; force)))
  then show ?case
  proof cases
    case empty
    have "\<exists>n. [] = concat (replicate n glyph_a)" by (rule exI[of _ 0]) simp
    with empty less.prems lap show ?thesis
      by (subst is_variable_loop.simps) simp
  next
    case one
    have "\<not> (\<exists>n. m = concat (replicate n glyph_a))"
    proof
      assume "\<exists>n. m = concat (replicate n glyph_a)"
      then obtain n where "m = concat (replicate n glyph_a)" ..
      then have "length m = 3 * n" by (simp add: length_concat_replicate_glyph_a)
      with one show False by (simp, (presburger)?)
    qed
    moreover have "\<not> is_variable_loop (pre @ m @ glyph_ap) i"
      using one less.prems
      by (subst is_variable_loop.simps) (simp add: substr_def glyph_ap_def glyph_a_def)
    ultimately show ?thesis by simp
  next
    case two
    have "\<not> (\<exists>n. m = concat (replicate n glyph_a))"
    proof
      assume "\<exists>n. m = concat (replicate n glyph_a)"
      then obtain n where "m = concat (replicate n glyph_a)" ..
      then have "length m = 3 * n" by (simp add: length_concat_replicate_glyph_a)
      with two show False by (simp, (presburger)?)
    qed
    moreover have "\<not> is_variable_loop (pre @ m @ glyph_ap) i"
      using two less.prems
      by (subst is_variable_loop.simps) (simp add: substr_def glyph_ap_def glyph_a_def)
    ultimately show ?thesis by simp
  next
    case more
    have chunk: "substr (pre @ m @ glyph_ap) i 3 = [x, y, z]"
      using more less.prems by (simp add: substr_def)
    have cond: "i < length (pre @ m @ glyph_ap) - 3"
      using more less.prems lap by simp
    show ?thesis
    proof (cases "[x, y, z] = glyph_a")
      case False
      have "\<not> (\<exists>n. m = concat (replicate n glyph_a))"
      proof
        assume "\<exists>n. m = concat (replicate n glyph_a)"
        then obtain n where n: "m = concat (replicate n glyph_a)" ..
        with more have "n \<noteq> 0" by (cases n) auto
        then obtain k where "n = Suc k" by (cases n) auto
        with n more have "x # y # z # m' = glyph_a @ concat (replicate k glyph_a)" by simp
        then have "[x, y, z] = glyph_a" by (simp add: glyph_a_def)
        with False show False by simp
      qed
      moreover have "\<not> is_variable_loop (pre @ m @ glyph_ap) i"
        using False chunk cond by (subst is_variable_loop.simps) simp
      ultimately show ?thesis by simp
    next
      case True
      have "is_variable_loop (pre @ m @ glyph_ap) i
              = is_variable_loop (pre @ m @ glyph_ap) (i + 3)"
        using True chunk cond by (subst is_variable_loop.simps) simp
      moreover have "pre @ m @ glyph_ap = (pre @ [x, y, z]) @ m' @ glyph_ap"
        using more by simp
      ultimately have step: "is_variable_loop (pre @ m @ glyph_ap) i
                  = is_variable_loop ((pre @ [x, y, z]) @ m' @ glyph_ap) (i + 3)"
        by simp
      have "is_variable_loop ((pre @ [x, y, z]) @ m' @ glyph_ap) (i + 3)
            \<longleftrightarrow> (\<exists>n. m' = concat (replicate n glyph_a))"
        using less.hyps[of m' "pre @ [x, y, z]" "i + 3"] more less.prems by simp
      moreover have "(\<exists>n. m' = concat (replicate n glyph_a)) \<longleftrightarrow> (\<exists>n. m = concat (replicate n glyph_a))"
      proof
        assume "\<exists>n. m' = concat (replicate n glyph_a)"
        then obtain n where "m' = concat (replicate n glyph_a)" ..
        with more True have "m = concat (replicate (Suc n) glyph_a)" by simp
        then show "\<exists>n. m = concat (replicate n glyph_a)" ..
      next
        assume "\<exists>n. m = concat (replicate n glyph_a)"
        then obtain n where n: "m = concat (replicate n glyph_a)" ..
        with more have "n \<noteq> 0" by (cases n) auto
        then obtain k where k: "n = Suc k" by (cases n) auto
        with n more have "x # y # z # m' = glyph_a @ concat (replicate k glyph_a)" by simp
        then have "m' = concat (replicate k glyph_a)" by (simp add: glyph_a_def)
        then show "\<exists>n. m' = concat (replicate n glyph_a)" ..
      qed
      ultimately show ?thesis using step by simp
    qed
  qed
qed


lemma is_variable_shape:
  "is_variable w \<longleftrightarrow>
     w = glyph_bap \<or> (\<exists>n. w = glyph_ba @ concat (replicate n glyph_a) @ glyph_ap)"
proof
  assume v: "is_variable w"
  show "w = glyph_bap \<or> (\<exists>n. w = glyph_ba @ concat (replicate n glyph_a) @ glyph_ap)"
  proof (cases "w = glyph_bap")
    case True
    then show ?thesis by simp
  next
    case False
    have lb3: "length glyph_ba = 3" by (simp add: glyph_ba_def)
    from v False have len: "6 \<le> length w" and pre: "take 3 w = glyph_ba"
      and suf: "drop (length w - 3) w = glyph_ap" and loop: "is_variable_loop w 3"
      by (simp_all add: is_variable_def starts_with_def substr_from_def lb3
               split: if_splits)
    define m where "m = take (length w - 6) (drop 3 w)"
    have "w = take 3 w @ drop 3 w" by simp
    also have "drop 3 w = take (length w - 6) (drop 3 w) @ drop (length w - 6) (drop 3 w)"
      by (rule append_take_drop_id[symmetric])
    also have "drop (length w - 6) (drop 3 w) = drop (length w - 3) w"
      using len by (simp add: add.commute)
    finally have w: "w = glyph_ba @ m @ glyph_ap"
      using pre suf by (simp add: m_def)
    have "length glyph_ba = 3" by (simp add: glyph_ba_def)
    from is_variable_loop_middle[OF this, of m] loop w
    have "\<exists>n. m = concat (replicate n glyph_a)" by simp
    with w show ?thesis by auto
  qed
next
  assume "w = glyph_bap \<or> (\<exists>n. w = glyph_ba @ concat (replicate n glyph_a) @ glyph_ap)"
  then show "is_variable w"
  proof
    assume "w = glyph_bap"
    then show ?thesis by (simp add: is_variable_def)
  next
    assume "\<exists>n. w = glyph_ba @ concat (replicate n glyph_a) @ glyph_ap"
    then obtain n where w: "w = glyph_ba @ concat (replicate n glyph_a) @ glyph_ap" ..
    have lb: "length glyph_ba = 3" and la: "length glyph_ap = 3"
      by (simp_all add: glyph_ba_def glyph_ap_def)
    have len: "length w = 3 * n + 6"
      using w lb la by (simp add: length_concat_replicate_glyph_a)
    have ne: "w \<noteq> glyph_bap"
    proof
      assume "w = glyph_bap"
      then have "length w = 3" by (simp add: glyph_bap_def)
      with len show False by simp
    qed
    have pre: "starts_with w glyph_ba"
      using w lb by (simp add: starts_with_def)
    have suf: "substr_from w (length w - 3) = glyph_ap"
      using w lb la by (simp add: substr_from_def length_concat_replicate_glyph_a)
    have "is_variable_loop w 3"
      using is_variable_loop_middle[OF lb, of "concat (replicate n glyph_a)"] w by auto
    with ne pre suf len show ?thesis by (simp add: is_variable_def)
  qed
qed

lemma variable_name_pattern_shape:
  "(\<exists>cps. variable_name_pattern cps \<and> w = concat (map utf8 cps)) \<longleftrightarrow>
     w = glyph_bap \<or> (\<exists>n. w = glyph_ba @ concat (replicate n glyph_a) @ glyph_ap)"
proof
  assume "\<exists>cps. variable_name_pattern cps \<and> w = concat (map utf8 cps)"
  then obtain cps where p: "variable_name_pattern cps" and w: "w = concat (map utf8 cps)"
    by blast
  from p consider (single) "cps = [0xBC25]"
    | (long) "2 \<le> length cps" "hd cps = 0xBC14" "last cps = 0xC555"
        "butlast (tl cps) = replicate (length cps - 2) 0xC544"
    by (auto simp: variable_name_pattern_def)
  then show "w = glyph_bap \<or> (\<exists>n. w = glyph_ba @ concat (replicate n glyph_a) @ glyph_ap)"
  proof cases
    case single
    with w show ?thesis by (simp add: utf8_glyphs)
  next
    case long
    from long(1) obtain c cs where cps: "cps = c # cs" and cs: "cs \<noteq> []"
      by (cases cps; cases "tl cps") auto
    have lc: "last cs = 0xC555" using long(3) cps cs by simp
    have bl: "butlast cs = replicate (length cps - 2) 0xC544" using long(4) cps by simp
    from cs have "cs = butlast cs @ [last cs]" by simp
    then have "cs = replicate (length cps - 2) 0xC544 @ [0xC555]"
      using lc bl by simp
    then have "cps = 0xBC14 # replicate (length cps - 2) 0xC544 @ [0xC555]"
      using cps long(2) by simp
    then obtain k where k: "cps = 0xBC14 # replicate k 0xC544 @ [0xC555]" by blast
    have "w = glyph_ba @ concat (replicate k glyph_a) @ glyph_ap"
      unfolding w k by (simp add: utf8_glyphs map_replicate)
    then show ?thesis by blast
  qed
next
  assume "w = glyph_bap \<or> (\<exists>n. w = glyph_ba @ concat (replicate n glyph_a) @ glyph_ap)"
  then show "\<exists>cps. variable_name_pattern cps \<and> w = concat (map utf8 cps)"
  proof
    assume "w = glyph_bap"
    then have "variable_name_pattern [0xBC25] \<and> w = concat (map utf8 [0xBC25])"
      by (simp add: variable_name_pattern_def utf8_glyphs)
    then show ?thesis ..
  next
    assume "\<exists>n. w = glyph_ba @ concat (replicate n glyph_a) @ glyph_ap"
    then obtain n where w: "w = glyph_ba @ concat (replicate n glyph_a) @ glyph_ap" ..
    let ?cps = "0xBC14 # replicate n 0xC544 @ [0xC555::nat]"
    have "variable_name_pattern ?cps"
      by (simp add: variable_name_pattern_def butlast_append)
    moreover have "w = concat (map utf8 ?cps)"
      using w by (simp add: utf8_glyphs map_replicate)
    ultimately show ?thesis by blast
  qed
qed

text \<open>
  Claim C5. \<^verbatim>\<open>is_variable\<close> holds of a word exactly if it is the reserved glyph, or
  the prefix glyph, any number of filler glyphs and the suffix glyph; such a word has at
  least six bytes, two code points, and a length that is a multiple of three. The same
  words are the UTF-8 encodings of the code-point sequences of the pattern, so the check on
  byte offsets is equivalent to the check on code points.
\<close>

theorem is_variable_iff_pattern:
  "(is_variable w \<longleftrightarrow>
      w = glyph_bap
      \<or> ((6 \<le> length w \<and> length w mod 3 = 0)
          \<and> (\<exists>n. w = glyph_ba @ concat (replicate n glyph_a) @ glyph_ap)))
   \<and> (is_variable w \<longleftrightarrow> (\<exists>cps. variable_name_pattern cps \<and> w = concat (map utf8 cps)))"
proof -
  let ?S = "\<exists>n. w = glyph_ba @ concat (replicate n glyph_a) @ glyph_ap"
  have len: "6 \<le> length w \<and> length w mod 3 = 0" if "?S"
  proof -
    from that obtain n where "w = glyph_ba @ concat (replicate n glyph_a) @ glyph_ap" ..
    then have "length w = 3 * n + 6"
      by (simp add: length_concat_replicate_glyph_a glyph_ba_def glyph_ap_def)
    then show ?thesis by simp
  qed
  have taut: "(P \<longleftrightarrow> Q \<or> (L \<and> S)) \<and> (P \<longleftrightarrow> E)"
    if "P \<longleftrightarrow> Q \<or> S" and "E \<longleftrightarrow> Q \<or> S" and "S \<Longrightarrow> L" for P Q S E L :: bool
    using that by blast
  show ?thesis
    by (rule taut[OF is_variable_shape variable_name_pattern_shape len])
qed

theorem is_variable_iff_pattern_witness:
  "is_variable (glyph_ba @ glyph_a @ glyph_a @ glyph_ap)
   \<and> variable_name_pattern [0xBC14, 0xC544, 0xC544, 0xC555]
   \<and> glyph_ba @ glyph_a @ glyph_a @ glyph_ap = concat (map utf8 [0xBC14, 0xC544, 0xC544, 0xC555])
   \<and> \<not> is_variable (glyph_ba @ glyph_ba @ glyph_ap)
   \<and> \<not> is_variable (glyph_ba @ [CHR 0xEC] @ glyph_ap)"
proof -
  let ?w = "glyph_ba @ glyph_a @ glyph_a @ glyph_ap"
  have p: "variable_name_pattern [0xBC14, 0xC544, 0xC544, 0xC555]"
    by (simp add: variable_name_pattern_def numeral_2_eq_2)
  have e: "?w = concat (map utf8 [0xBC14, 0xC544, 0xC544, 0xC555])"
    by (simp add: utf8_glyphs)
  from p e have "\<exists>cps. variable_name_pattern cps \<and> ?w = concat (map utf8 cps)" by blast
  with is_variable_iff_pattern[of ?w] have 1: "is_variable ?w" by blast
  have n: "\<not> (\<exists>n. v = glyph_ba @ concat (replicate n glyph_a) @ glyph_ap)"
    if "length v = 9" "take 3 (drop 3 v) \<noteq> glyph_a" for v
  proof
    assume "\<exists>n. v = glyph_ba @ concat (replicate n glyph_a) @ glyph_ap"
    then obtain n where v: "v = glyph_ba @ concat (replicate n glyph_a) @ glyph_ap" ..
    with that(1) have "n = 1"
      by (simp add: length_concat_replicate_glyph_a glyph_ba_def glyph_ap_def)
    with v that(2) show False by (simp add: glyph_ba_def glyph_a_def)
  qed
  have 2: "\<not> is_variable (glyph_ba @ glyph_ba @ glyph_ap)"
    using is_variable_iff_pattern[of "glyph_ba @ glyph_ba @ glyph_ap"]
      n[of "glyph_ba @ glyph_ba @ glyph_ap"]
    by (simp add: glyph_ba_def glyph_ap_def glyph_a_def glyph_bap_def)
  have 3: "\<not> is_variable (glyph_ba @ [CHR 0xEC] @ glyph_ap)"
    using is_variable_iff_pattern[of "glyph_ba @ [CHR 0xEC] @ glyph_ap"]
    by (simp add: glyph_ba_def glyph_ap_def glyph_bap_def)
  from 1 p e 2 3 show ?thesis by blast
qed

subsection \<open>The name generators\<close>

lemma map_of_map_assign: "map_of (map_assign m k v) = (map_of m)(k \<mapsto> v)"
  by (induction m) (auto simp: fun_upd_twist)

lemma digit_value_digit:
  assumes "d < 10"
  shows "digit_value (''0123456789'' ! d) = int d"
proof -
  from assms have "d \<in> {0, 1, 2, 3, 4, 5, 6, 7, 8, 9}" by auto
  then show ?thesis by (auto simp: digit_value_def)
qed

lemma decimal_value_snoc:
  "decimal_value (ds @ [c]) = decimal_value ds * 10 + digit_value c"
  by (simp add: decimal_value_def)

lemma decimal_value_nat_to_string: "decimal_value (nat_to_string n) = int n"
proof (induction n rule: nat_to_string.induct)
  case (1 n)
  show ?case
  proof (cases "n < 10")
    case True
    then show ?thesis
      by (subst nat_to_string.simps) (simp add: decimal_value_def digit_value_digit)
  next
    case False
    with 1 have "decimal_value (nat_to_string (n div 10)) = int (n div 10)" by simp
    moreover have "digit_value (''0123456789'' ! (n mod 10)) = int (n mod 10)"
      by (rule digit_value_digit) simp
    ultimately have "decimal_value (nat_to_string n) = int (n div 10) * 10 + int (n mod 10)"
      using False by (subst nat_to_string.simps) (simp add: decimal_value_snoc)
    then show ?thesis by (simp add: zdiv_int zmod_int)
  qed
qed

lemma to_string_inject:
  assumes "0 \<le> i" "0 \<le> j" "to_string i = to_string j"
  shows "i = j"
proof -
  from assms have "nat_to_string (nat i) = nat_to_string (nat j)"
    by (simp add: to_string_def)
  then have "decimal_value (nat_to_string (nat i)) = decimal_value (nat_to_string (nat j))"
    by simp
  with assms show ?thesis by (simp add: decimal_value_nat_to_string)
qed

lemma names_wf_assign:
  assumes wf: "names_wf prefix m c" and new: "map_of m k = None"
  shows "names_wf prefix (map_assign m k (prefix @ to_string c)) (c + 1)"
  unfolding names_wf_def
proof (intro conjI allI impI)
  from wf show "0 \<le> c + 1" by (simp add: names_wf_def)
next
  fix k' v assume "map_of (map_assign m k (prefix @ to_string c)) k' = Some v"
  then have "(k' = k \<and> v = prefix @ to_string c) \<or> map_of m k' = Some v"
    by (auto simp: map_of_map_assign split: if_splits)
  then show "\<exists>i. 0 \<le> i \<and> i < c + 1 \<and> v = prefix @ to_string i"
  proof
    assume "k' = k \<and> v = prefix @ to_string c"
    with wf show ?thesis by (auto simp: names_wf_def)
  next
    assume "map_of m k' = Some v"
    with wf obtain i where "0 \<le> i" "i < c" "v = prefix @ to_string i"
      unfolding names_wf_def by blast
    then show ?thesis by (intro exI[of _ i]) simp
  qed
next
  fix k1 k2 v
  assume a: "map_of (map_assign m k (prefix @ to_string c)) k1 = Some v
             \<and> map_of (map_assign m k (prefix @ to_string c)) k2 = Some v"
  have old: "v \<noteq> prefix @ to_string c" if "map_of m k' = Some v" for k' v
  proof
    assume e: "v = prefix @ to_string c"
    from wf that obtain i where i: "0 \<le> i" "i < c" "v = prefix @ to_string i"
      unfolding names_wf_def by blast
    with e have "to_string i = to_string c" by simp
    with i have "i = c" using to_string_inject[of i c] by simp
    with i show False by simp
  qed
  from wf have inj: "\<And>k k' v. map_of m k = Some v \<Longrightarrow> map_of m k' = Some v \<Longrightarrow> k = k'"
    unfolding names_wf_def by blast
  show "k1 = k2"
  proof (cases "k1 = k")
    case True
    show ?thesis
    proof (cases "k2 = k")
      case True
      with \<open>k1 = k\<close> show ?thesis by simp
    next
      case False
      with a True old[of k2 v] show ?thesis by (auto simp: map_of_map_assign)
    qed
  next
    case False
    show ?thesis
    proof (cases "k2 = k")
      case True
      with a False old[of k1 v] show ?thesis by (auto simp: map_of_map_assign)
    next
      case k2: False
      with a False inj[of k1 v k2] show ?thesis by (auto simp: map_of_map_assign)
    qed
  qed
qed

lemma context_wf_reset: "context_wf reset_context"
  by (simp add: context_wf_def names_wf_def reset_context_def)

lemma context_wf_get_cpp_var: "context_wf g \<Longrightarrow> context_wf (snd (get_cpp_var a g))"
  using names_wf_assign[of "''var_''" "variable_map g" "var_counter g" a]
  by (auto simp: context_wf_def get_cpp_var_def Let_def)

lemma context_wf_get_cpp_func: "context_wf g \<Longrightarrow> context_wf (snd (get_cpp_func a g))"
  using names_wf_assign[of "''func_''" "function_map g" "func_counter g" a]
  by (auto simp: context_wf_def get_cpp_func_def Let_def)

lemma context_wf_run_calls: "context_wf g \<Longrightarrow> context_wf (run_calls calls g)"
  by (induction calls g rule: run_calls.induct)
     (simp_all add: context_wf_get_cpp_var context_wf_get_cpp_func)


lemma get_cpp_var_registers:
  "map_of (variable_map (snd (get_cpp_var a g))) a = Some (fst (get_cpp_var a g))"
  by (cases "map_of (variable_map g) a")
     (simp_all add: get_cpp_var_def Let_def map_at_def map_of_map_assign)

lemma get_cpp_func_registers:
  "map_of (function_map (snd (get_cpp_func a g))) a = Some (fst (get_cpp_func a g))"
  by (cases "map_of (function_map g) a")
     (simp_all add: get_cpp_func_def Let_def map_at_def map_of_map_assign)

lemma get_cpp_var_known:
  "map_of (variable_map g) a = Some v \<Longrightarrow> get_cpp_var a g = (v, g)"
  by (simp add: get_cpp_var_def map_at_def)

lemma get_cpp_func_known:
  "map_of (function_map g) a = Some v \<Longrightarrow> get_cpp_func a g = (v, g)"
  by (simp add: get_cpp_func_def map_at_def)

lemma get_cpp_var_keeps:
  "map_of (variable_map g) a = Some v \<Longrightarrow>
     map_of (variable_map (snd (get_cpp_var b g))) a = Some v"
  "map_of (function_map g) a = Some v \<Longrightarrow>
     map_of (function_map (snd (get_cpp_var b g))) a = Some v"
  by (auto simp: get_cpp_var_def Let_def map_of_map_assign)

lemma get_cpp_func_keeps:
  "map_of (variable_map g) a = Some v \<Longrightarrow>
     map_of (variable_map (snd (get_cpp_func b g))) a = Some v"
  "map_of (function_map g) a = Some v \<Longrightarrow>
     map_of (function_map (snd (get_cpp_func b g))) a = Some v"
  by (auto simp: get_cpp_func_def Let_def map_of_map_assign)

lemma run_calls_keeps:
  "map_of (variable_map g) a = Some v \<Longrightarrow> map_of (variable_map (run_calls calls g)) a = Some v"
  "map_of (function_map g) a = Some v \<Longrightarrow> map_of (function_map (run_calls calls g)) a = Some v"
  by (induction calls g rule: run_calls.induct)
     (simp_all add: get_cpp_var_keeps get_cpp_func_keeps)

text \<open>
  Claim C2. In every state of the globals within one compilation: a second lookup of a
  name returns the name of the first and leaves the globals, the counters among them, as
  they are; the name returned for a source name stays the same after any further lookups;
  two different source names get two different generated names; and a generated variable
  name is never a generated function name, whatever the source names are.
\<close>

theorem name_generators_idempotent_injective:
  "get_cpp_var a (snd (get_cpp_var a (run_calls calls reset_context)))
     = get_cpp_var a (run_calls calls reset_context)
   \<and> get_cpp_func a (snd (get_cpp_func a (run_calls calls reset_context)))
     = get_cpp_func a (run_calls calls reset_context)
   \<and> fst (get_cpp_var a (run_calls calls' (snd (get_cpp_var a (run_calls calls reset_context)))))
     = fst (get_cpp_var a (run_calls calls reset_context))
   \<and> fst (get_cpp_func a (run_calls calls' (snd (get_cpp_func a (run_calls calls reset_context)))))
     = fst (get_cpp_func a (run_calls calls reset_context))
   \<and> (a \<noteq> b \<longrightarrow>
        fst (get_cpp_var a (run_calls calls reset_context))
        \<noteq> fst (get_cpp_var b (run_calls calls' (snd (get_cpp_var a (run_calls calls reset_context)))))
        \<and> fst (get_cpp_func a (run_calls calls reset_context))
        \<noteq> fst (get_cpp_func b (run_calls calls' (snd (get_cpp_func a (run_calls calls reset_context))))))
   \<and> fst (get_cpp_var a (run_calls calls reset_context))
       \<noteq> fst (get_cpp_func c (run_calls calls'' reset_context))"
proof -
  let ?g = "run_calls calls reset_context"
  have wf: "context_wf ?g" by (simp add: context_wf_run_calls context_wf_reset)
  \<comment> \<open>variables\<close>
  let ?va = "fst (get_cpp_var a ?g)" and ?g1 = "snd (get_cpp_var a ?g)"
  have reg: "map_of (variable_map ?g1) a = Some ?va" by (rule get_cpp_var_registers)
  have v1: "get_cpp_var a ?g1 = get_cpp_var a ?g"
    using get_cpp_var_known[OF reg] by simp
  let ?g2 = "run_calls calls' ?g1"
  have reg2: "map_of (variable_map ?g2) a = Some ?va" by (rule run_calls_keeps(1)[OF reg])
  have v2: "fst (get_cpp_var a ?g2) = ?va"
    using get_cpp_var_known[OF reg2] by simp
  have v3: "?va \<noteq> fst (get_cpp_var b ?g2)" if "a \<noteq> b"
  proof
    let ?g3 = "snd (get_cpp_var b ?g2)"
    assume e: "?va = fst (get_cpp_var b ?g2)"
    have "context_wf ?g3"
      by (intro context_wf_get_cpp_var context_wf_run_calls wf)
    then have inj: "\<And>k k' v. map_of (variable_map ?g3) k = Some v \<Longrightarrow>
        map_of (variable_map ?g3) k' = Some v \<Longrightarrow> k = k'"
      unfolding context_wf_def names_wf_def by blast
    have "map_of (variable_map ?g3) a = Some ?va" by (rule get_cpp_var_keeps(1)[OF reg2])
    moreover have "map_of (variable_map ?g3) b = Some ?va"
      using get_cpp_var_registers[of b ?g2] e by simp
    ultimately have "a = b" by (rule inj)
    with that show False by simp
  qed
  \<comment> \<open>functions\<close>
  let ?fa = "fst (get_cpp_func a ?g)" and ?h1 = "snd (get_cpp_func a ?g)"
  have freg: "map_of (function_map ?h1) a = Some ?fa" by (rule get_cpp_func_registers)
  have f1: "get_cpp_func a ?h1 = get_cpp_func a ?g"
    using get_cpp_func_known[OF freg] by simp
  let ?h2 = "run_calls calls' ?h1"
  have freg2: "map_of (function_map ?h2) a = Some ?fa" by (rule run_calls_keeps(2)[OF freg])
  have f2: "fst (get_cpp_func a ?h2) = ?fa"
    using get_cpp_func_known[OF freg2] by simp
  have f3: "?fa \<noteq> fst (get_cpp_func b ?h2)" if "a \<noteq> b"
  proof
    let ?h3 = "snd (get_cpp_func b ?h2)"
    assume e: "?fa = fst (get_cpp_func b ?h2)"
    have "context_wf ?h3"
      by (intro context_wf_get_cpp_func context_wf_run_calls wf)
    then have inj: "\<And>k k' v. map_of (function_map ?h3) k = Some v \<Longrightarrow>
        map_of (function_map ?h3) k' = Some v \<Longrightarrow> k = k'"
      unfolding context_wf_def names_wf_def by blast
    have "map_of (function_map ?h3) a = Some ?fa" by (rule get_cpp_func_keeps(2)[OF freg2])
    moreover have "map_of (function_map ?h3) b = Some ?fa"
      using get_cpp_func_registers[of b ?h2] e by simp
    ultimately have "a = b" by (rule inj)
    with that show False by simp
  qed
  \<comment> \<open>the two namespaces\<close>
  have "context_wf ?g1" by (intro context_wf_get_cpp_var wf)
  with reg obtain i where i: "?va = ''var_'' @ to_string i"
    unfolding context_wf_def names_wf_def by blast
  let ?k = "run_calls calls'' reset_context"
  have "context_wf (snd (get_cpp_func c ?k))"
    by (intro context_wf_get_cpp_func context_wf_run_calls context_wf_reset)
  with get_cpp_func_registers[of c ?k] obtain j where
    j: "fst (get_cpp_func c ?k) = ''func_'' @ to_string j"
    unfolding context_wf_def names_wf_def by blast
  have d: "?va \<noteq> fst (get_cpp_func c ?k)" unfolding i j by simp
  from v1 f1 v2 f2 v3 f3 d show ?thesis by simp
qed

theorem name_generators_idempotent_injective_witness:
  "get_cpp_var ''x'' (snd (get_cpp_var ''x'' (run_calls [CallVar ''y''] reset_context)))
     = (''var_1'', snd (get_cpp_var ''x'' (run_calls [CallVar ''y''] reset_context)))
   \<and> fst (get_cpp_var ''x'' (run_calls [CallVar ''y''] reset_context)) = ''var_1''
   \<and> fst (get_cpp_var ''z'' (run_calls [CallFunc ''x'']
            (snd (get_cpp_var ''x'' (run_calls [CallVar ''y''] reset_context))))) = ''var_2''
   \<and> ''var_1'' \<noteq> ''var_2''
   \<and> fst (get_cpp_func ''x'' (run_calls [CallVar ''x''] reset_context)) = ''func_0''
   \<and> ''var_1'' \<noteq> ''func_0''"
proof -
  have 1: "fst (get_cpp_var ''x'' (run_calls [CallVar ''y''] reset_context)) = ''var_1''"
    by code_simp
  have 2: "fst (get_cpp_var ''z'' (run_calls [CallFunc ''x'']
            (snd (get_cpp_var ''x'' (run_calls [CallVar ''y''] reset_context))))) = ''var_2''"
    by code_simp
  have 3: "fst (get_cpp_func ''x'' (run_calls [CallVar ''x''] reset_context)) = ''func_0''"
    by code_simp
  have 4: "(''x''::string) \<noteq> ''z''" by simp
  from name_generators_idempotent_injective[of "''x''" "[CallVar ''y'']" "[CallFunc ''x'']"
      "''z''" "''x''" "[CallVar ''x'']"] 1 2 3 4
  show ?thesis by (simp add: prod_eq_iff)
qed

subsection \<open>The layout of the generated document\<close>

lemma keys_get_cpp_var:
  "var_keys (snd (get_cpp_var a g)) = insert a (var_keys g)"
  "func_keys (snd (get_cpp_var a g)) = func_keys g"
  by (auto simp: var_keys_def func_keys_def get_cpp_var_def Let_def map_of_map_assign)

lemma keys_get_cpp_func:
  "var_keys (snd (get_cpp_func a g)) = var_keys g"
  "func_keys (snd (get_cpp_func a g)) = insert a (func_keys g)"
  by (auto simp: var_keys_def func_keys_def get_cpp_func_def Let_def map_of_map_assign)

lemma keys_collect_symbols:
  "var_keys (collect_symbols n g) = var_keys g \<union> var_names n
   \<and> func_keys (collect_symbols n g) = func_keys g \<union> func_names n"
  "var_keys (collect_symbols_body ns g) = var_keys g \<union> var_names_body ns
   \<and> func_keys (collect_symbols_body ns g) = func_keys g \<union> func_names_body ns"
  by (induction n g and ns g rule: collect_symbols_collect_symbols_body.induct)
     (auto simp: keys_get_cpp_var keys_get_cpp_func)

lemma get_cpp_var_keeps_context: "a \<in> var_keys g \<Longrightarrow> snd (get_cpp_var a g) = g"
  by (auto simp: var_keys_def get_cpp_var_def)

lemma get_cpp_func_keeps_context: "a \<in> func_keys g \<Longrightarrow> snd (get_cpp_func a g) = g"
  by (auto simp: func_keys_def get_cpp_func_def)

lemma generate_keeps_context:
  "var_names n \<subseteq> var_keys g \<Longrightarrow> func_names n \<subseteq> func_keys g \<Longrightarrow> snd (generate n g) = g"
  "var_names_body ns \<subseteq> var_keys g \<Longrightarrow> func_names_body ns \<subseteq> func_keys g \<Longrightarrow>
     snd (generate_body indent ns g) = g"
proof (induction n g and indent ns g rule: generate_generate_body.induct)
  case (5 left op right g)
  then have l: "snd (generate left g) = g" by simp
  then have "(fst (generate left g), g) = generate left g" by (simp add: prod_eq_iff)
  from "5.IH"(2)[OF refl this] "5.prems" have "snd (generate right g) = g" by simp
  with l show ?case by (simp add: split_beta)
next
  case (6 var_name expr g)
  then have l: "snd (get_cpp_var var_name g) = g" by (simp add: get_cpp_var_keeps_context)
  then have "(fst (get_cpp_var var_name g), g) = get_cpp_var var_name g"
    by (simp add: prod_eq_iff)
  from "6.IH"[OF refl this] "6.prems" have "snd (generate expr g) = g" by simp
  with l show ?case by (simp add: split_beta)
next
  case (8 condition body g)
  then have l: "snd (generate condition g) = g" by simp
  then have "(fst (generate condition g), g) = generate condition g" by (simp add: prod_eq_iff)
  from "8.IH"(2)[OF refl this] "8.prems" have "snd (generate_body ''    '' body g) = g" by simp
  with l show ?case by (simp add: split_beta)
next
  case (9 condition body g)
  then have l: "snd (generate condition g) = g" by simp
  then have "(fst (generate condition g), g) = generate condition g" by (simp add: prod_eq_iff)
  from "9.IH"(2)[OF refl this] "9.prems" have "snd (generate_body ''    '' body g) = g" by simp
  with l show ?case by (simp add: split_beta)
next
  case (10 name body g)
  then have l: "snd (get_cpp_func name g) = g" by (simp add: get_cpp_func_keeps_context)
  then have "(fst (get_cpp_func name g), g) = get_cpp_func name g"
    by (simp add: prod_eq_iff)
  from "10.IH"[OF refl this] "10.prems" have "snd (generate_body [] body g) = g" by simp
  with l show ?case by (simp add: split_beta)
next
  case (14 indent stmt stmts g)
  then have l: "snd (generate stmt g) = g" by simp
  then have "(fst (generate stmt g), g) = generate stmt g" by (simp add: prod_eq_iff)
  from "14.IH"(2)[OF refl this] "14.prems" have "snd (generate_body indent stmts g) = g" by simp
  with l show ?case by (simp add: split_beta)
qed (simp_all add: split_beta get_cpp_var_keeps_context get_cpp_func_keeps_context)

lemma function_definitions_pure:
  "var_names_body ast \<subseteq> var_keys g \<Longrightarrow> func_names_body ast \<subseteq> func_keys g \<Longrightarrow>
   function_definitions ast g =
     (concat (map (\<lambda>node. fst (generate node g) @ ''\<newline>\<newline>'') (filter is_FuncDefNode ast)), g)"
  by (induction ast) (simp_all add: split_beta generate_keeps_context prod_eq_iff)

lemma main_statements_pure:
  "var_names_body ast \<subseteq> var_keys g \<Longrightarrow> func_names_body ast \<subseteq> func_keys g \<Longrightarrow>
   main_statements ast g =
     (concat (map (\<lambda>node. ''    '' @ fst (generate node g) @ ''\<newline>'')
                (filter (\<lambda>node. \<not> is_FuncDefNode node) ast)), g)"
  by (induction ast) (simp_all add: split_beta generate_keeps_context prod_eq_iff)

lemma generate_cpp_code_pure:
  assumes "var_names_body ast \<subseteq> var_keys g" and "func_names_body ast \<subseteq> func_keys g"
  shows "generate_cpp_code ast g =
     (preamble @ function_prototypes (function_map g) @ ''\<newline>''
        @ global_variables (variable_map g) @ ''\<newline>''
        @ concat (map (\<lambda>node. fst (generate node g) @ ''\<newline>\<newline>'') (filter is_FuncDefNode ast))
        @ ''int main() {\<newline>''
        @ concat (map (\<lambda>node. ''    '' @ fst (generate node g) @ ''\<newline>'')
                    (filter (\<lambda>node. \<not> is_FuncDefNode node) ast))
        @ ''    return 0;\<newline>'' @ ''}\<newline>'', g)"
  by (simp add: generate_cpp_code_def function_definitions_pure[OF assms]
        main_statements_pure[OF assms])

lemma collected_names:
  "var_names_body ast \<subseteq> var_keys (collect_symbols_body ast g)"
  "func_names_body ast \<subseteq> func_keys (collect_symbols_body ast g)"
  by (simp_all add: keys_collect_symbols)


lemma function_prototypes_line:
  assumes "map_of m f = Some v"
  shows "\<exists>pre post. function_prototypes m = pre @ ''MolObject '' @ v @ ''();\<newline>'' @ post"
proof -
  from assms have "(f, v) \<in> set m" by (rule map_of_SomeD)
  then obtain xs ys where "m = xs @ (f, v) # ys" by (auto simp: in_set_conv_decomp)
  then have "function_prototypes m =
      function_prototypes xs @ ''MolObject '' @ v @ ''();\<newline>'' @ function_prototypes ys"
    by (simp add: function_prototypes_def)
  then show ?thesis by blast
qed

lemma global_variables_line:
  assumes "map_of m x = Some v"
  shows "\<exists>pre post. global_variables m = pre @ ''MolObject '' @ v @ '';\<newline>'' @ post"
proof -
  from assms have "(x, v) \<in> set m" by (rule map_of_SomeD)
  then obtain xs ys where "m = xs @ (x, v) # ys" by (auto simp: in_set_conv_decomp)
  then have "global_variables m =
      global_variables xs @ ''MolObject '' @ v @ '';\<newline>'' @ global_variables ys"
    by (simp add: global_variables_def)
  then show ?thesis by blast
qed

lemma names_of_member:
  "node \<in> set ast \<Longrightarrow> var_names node \<subseteq> var_names_body ast"
  "node \<in> set ast \<Longrightarrow> func_names node \<subseteq> func_names_body ast"
  by (induction ast) auto

text \<open>
  Claim C3, at a function that is defined inside a block. For the program
  \<^verbatim>\<open>ip 1 [ camp1 [ ] ] camp2 [ ]\<close> (the keywords in Korean) the compiler declares both
  functions at file scope, but only the body of the second one, which is a top-level
  statement, stands before \<^verbatim>\<open>main\<close>. The body of the first function is emitted where its
  \<^verbatim>\<open>FuncDefNode\<close> stands, inside the \<^verbatim>\<open>if\<close> block of \<^verbatim>\<open>main\<close> and after the body
  of the function that the AST has later: the generated document is not the layout that
  puts the bodies of all \<^verbatim>\<open>FuncDefNode\<close>s, in the order of the AST, before \<^verbatim>\<open>main\<close>.
\<close>

theorem nested_definition_body_inside_main:
  "tokenize (kw_ip @ '' 1 [ '' @ kw_camp @ ''1 [ ] ] '' @ kw_camp @ ''2 [ ]'') =
     Inr [\<lparr>tok_type = KEYWORD, tok_value = kw_ip\<rparr>,
          \<lparr>tok_type = NUMBER, tok_value = ''1''\<rparr>,
          \<lparr>tok_type = SYMBOL, tok_value = ''[''\<rparr>,
          \<lparr>tok_type = IDENTIFIER, tok_value = kw_camp @ ''1''\<rparr>,
          \<lparr>tok_type = SYMBOL, tok_value = ''[''\<rparr>,
          \<lparr>tok_type = SYMBOL, tok_value = '']''\<rparr>,
          \<lparr>tok_type = SYMBOL, tok_value = '']''\<rparr>,
          \<lparr>tok_type = IDENTIFIER, tok_value = kw_camp @ ''2''\<rparr>,
          \<lparr>tok_type = SYMBOL, tok_value = ''[''\<rparr>,
          \<lparr>tok_type = SYMBOL, tok_value = '']''\<rparr>,
          \<lparr>tok_type = END_OF_FILE, tok_value = []\<rparr>]
   \<and> parse [\<lparr>tok_type = KEYWORD, tok_value = kw_ip\<rparr>,
          \<lparr>tok_type = NUMBER, tok_value = ''1''\<rparr>,
          \<lparr>tok_type = SYMBOL, tok_value = ''[''\<rparr>,
          \<lparr>tok_type = IDENTIFIER, tok_value = kw_camp @ ''1''\<rparr>,
          \<lparr>tok_type = SYMBOL, tok_value = ''[''\<rparr>,
          \<lparr>tok_type = SYMBOL, tok_value = '']''\<rparr>,
          \<lparr>tok_type = SYMBOL, tok_value = '']''\<rparr>,
          \<lparr>tok_type = IDENTIFIER, tok_value = kw_camp @ ''2''\<rparr>,
          \<lparr>tok_type = SYMBOL, tok_value = ''[''\<rparr>,
          \<lparr>tok_type = SYMBOL, tok_value = '']''\<rparr>,
          \<lparr>tok_type = END_OF_FILE, tok_value = []\<rparr>] = Inr nested_definition
   \<and> fst (generate_cpp_code nested_definition
            (collect_symbols_body nested_definition reset_context)) =
       preamble @
       ''MolObject func_0();\<newline>MolObject func_1();\<newline>\<newline>\<newline>MolObject func_1() {\<newline>return MolObject();\<newline>}\<newline>\<newline>int main() {\<newline>    if (std::get<bool>(MolObject(1).value)) {\<newline>    MolObject func_0() {\<newline>return MolObject();\<newline>}\<newline>}\<newline>    return 0;\<newline>}\<newline>''
   \<and> fst (generate_cpp_code nested_definition
            (collect_symbols_body nested_definition reset_context)) \<noteq>
       preamble
       @ function_prototypes (function_map (collect_symbols_body nested_definition reset_context))
       @ ''\<newline>''
       @ global_variables (variable_map (collect_symbols_body nested_definition reset_context))
       @ ''\<newline>''
       @ concat (map (\<lambda>node. fst (generate node
                    (collect_symbols_body nested_definition reset_context)) @ ''\<newline>\<newline>'')
           (func_defs_body nested_definition))
       @ ''int main() {\<newline>''
       @ concat (map (\<lambda>node. ''    '' @ fst (generate node
                    (collect_symbols_body nested_definition reset_context)) @ ''\<newline>'')
           (filter (\<lambda>node. \<not> is_FuncDefNode node) nested_definition))
       @ ''    return 0;\<newline>'' @ ''}\<newline>''"
proof -
  define g where "g = collect_symbols_body nested_definition reset_context"
  have g: "g = \<lparr>variable_map = [], var_counter = 0,
                function_map = [(kw_camp @ ''1'', ''func_0''), (kw_camp @ ''2'', ''func_1'')],
                func_counter = 2\<rparr>"
    unfolding g_def by code_simp
  have f1: "get_cpp_func (kw_camp @ ''1'') g = (''func_0'', g)"
    unfolding g by (simp add: get_cpp_func_def map_at_def)
  have f2: "get_cpp_func (kw_camp @ ''2'') g = (''func_1'', g)"
    unfolding g by (simp add: get_cpp_func_def map_at_def kw_camp_def)
  have p: "function_prototypes (function_map g) = ''MolObject func_0();\<newline>MolObject func_1();\<newline>''"
    unfolding g by (simp add: function_prototypes_def)
  have v: "global_variables (variable_map g) = []"
    unfolding g by (simp add: global_variables_def)
  have "fst (generate_cpp_code nested_definition g) =
       preamble @
       ''MolObject func_0();\<newline>MolObject func_1();\<newline>\<newline>\<newline>MolObject func_1() {\<newline>return MolObject();\<newline>}\<newline>\<newline>int main() {\<newline>    if (std::get<bool>(MolObject(1).value)) {\<newline>    MolObject func_0() {\<newline>return MolObject();\<newline>}\<newline>}\<newline>    return 0;\<newline>}\<newline>''"
    by (simp add: generate_cpp_code_def nested_definition_def p v f1 f2 split_beta)
  moreover have "tokenize (kw_ip @ '' 1 [ '' @ kw_camp @ ''1 [ ] ] '' @ kw_camp @ ''2 [ ]'') =
     Inr [\<lparr>tok_type = KEYWORD, tok_value = kw_ip\<rparr>,
          \<lparr>tok_type = NUMBER, tok_value = ''1''\<rparr>,
          \<lparr>tok_type = SYMBOL, tok_value = ''[''\<rparr>,
          \<lparr>tok_type = IDENTIFIER, tok_value = kw_camp @ ''1''\<rparr>,
          \<lparr>tok_type = SYMBOL, tok_value = ''[''\<rparr>,
          \<lparr>tok_type = SYMBOL, tok_value = '']''\<rparr>,
          \<lparr>tok_type = SYMBOL, tok_value = '']''\<rparr>,
          \<lparr>tok_type = IDENTIFIER, tok_value = kw_camp @ ''2''\<rparr>,
          \<lparr>tok_type = SYMBOL, tok_value = ''[''\<rparr>,
          \<lparr>tok_type = SYMBOL, tok_value = '']''\<rparr>,
          \<lparr>tok_type = END_OF_FILE, tok_value = []\<rparr>]"
    by code_simp
  moreover have "parse [\<lparr>tok_type = KEYWORD, tok_value = kw_ip\<rparr>,
          \<lparr>tok_type = NUMBER, tok_value = ''1''\<rparr>,
          \<lparr>tok_type = SYMBOL, tok_value = ''[''\<rparr>,
          \<lparr>tok_type = IDENTIFIER, tok_value = kw_camp @ ''1''\<rparr>,
          \<lparr>tok_type = SYMBOL, tok_value = ''[''\<rparr>,
          \<lparr>tok_type = SYMBOL, tok_value = '']''\<rparr>,
          \<lparr>tok_type = SYMBOL, tok_value = '']''\<rparr>,
          \<lparr>tok_type = IDENTIFIER, tok_value = kw_camp @ ''2''\<rparr>,
          \<lparr>tok_type = SYMBOL, tok_value = ''[''\<rparr>,
          \<lparr>tok_type = SYMBOL, tok_value = '']''\<rparr>,
          \<lparr>tok_type = END_OF_FILE, tok_value = []\<rparr>] = Inr nested_definition"
    by code_simp
  moreover have "fst (generate_cpp_code nested_definition g) \<noteq>
       preamble @ function_prototypes (function_map g) @ ''\<newline>''
       @ global_variables (variable_map g) @ ''\<newline>''
       @ concat (map (\<lambda>node. fst (generate node g) @ ''\<newline>\<newline>'')
           (func_defs_body nested_definition))
       @ ''int main() {\<newline>''
       @ concat (map (\<lambda>node. ''    '' @ fst (generate node g) @ ''\<newline>'')
           (filter (\<lambda>node. \<not> is_FuncDefNode node) nested_definition))
       @ ''    return 0;\<newline>'' @ ''}\<newline>''"
    by (simp add: generate_cpp_code_def nested_definition_def p v f1 f2 split_beta)
  ultimately show ?thesis unfolding g_def by simp
qed

subsection \<open>Failures of the compiler\<close>

text \<open>
  Claim C9: code emission is total. Whenever lexing and parsing succeed, the compiler
  returns a document, which is the one that \<^verbatim>\<open>generate_cpp_code\<close> emits for the AST in
  the context that the symbol collector has populated. In that context emission registers
  no further name: \<^verbatim>\<open>generate_cpp_code\<close> and the \<^verbatim>\<open>generate\<close> of every top-level node,
  and of every node whose names are names of the AST, as those of the nodes inside it are,
  return their text and leave the context as it is; the document is the preamble, the
  prototypes, the variable declarations, the text of each top-level function definition,
  and \<^verbatim>\<open>main\<close> with the text of each other top-level statement; every use of a variable
  generates the name that the document declares, and every call of a function generates a
  call of the name whose prototype the document holds. Hence the compiler fails exactly
  when the lexer fails or the parser fails.
\<close>

theorem emission_never_fails:
  "(tokenize code = Inr tokens \<and> parse tokens = Inr ast
      \<and> g1 = collect_symbols_body ast reset_context \<longrightarrow>
      translate_to_cpp code g = (Inr (fst (generate_cpp_code ast g1)), g1)
      \<and> generate_cpp_code ast g1 =
          (preamble @ function_prototypes (function_map g1) @ ''\<newline>''
             @ global_variables (variable_map g1) @ ''\<newline>''
             @ concat (map (\<lambda>node. fst (generate node g1) @ ''\<newline>\<newline>'')
                         (filter is_FuncDefNode ast))
             @ ''int main() {\<newline>''
             @ concat (map (\<lambda>node. ''    '' @ fst (generate node g1) @ ''\<newline>'')
                         (filter (\<lambda>node. \<not> is_FuncDefNode node) ast))
             @ ''    return 0;\<newline>'' @ ''}\<newline>'', g1)
      \<and> (\<forall>node \<in> set ast. snd (generate node g1) = g1)
      \<and> (\<forall>node. var_names node \<subseteq> var_names_body ast
              \<and> func_names node \<subseteq> func_names_body ast \<longrightarrow> snd (generate node g1) = g1)
      \<and> (\<forall>x \<in> var_names_body ast. \<exists>v pre post.
            generate (VariableNode x) g1 = (v, g1)
            \<and> global_variables (variable_map g1)
                = pre @ ''MolObject '' @ v @ '';\<newline>'' @ post)
      \<and> (\<forall>f \<in> func_names_body ast. \<exists>v pre post.
            generate (FuncCallNode f) g1 = (v @ ''();'', g1)
            \<and> function_prototypes (function_map g1)
                = pre @ ''MolObject '' @ v @ ''();\<newline>'' @ post))
   \<and> ((\<exists>e. fst (translate_to_cpp code g) = Inl e) \<longleftrightarrow>
        (\<exists>e. tokenize code = Inl e)
        \<or> (\<exists>toks e. tokenize code = Inr toks \<and> parse toks = Inl e))"
proof -
  have main: "translate_to_cpp code g = (Inr (fst (generate_cpp_code ast g1)), g1)
      \<and> generate_cpp_code ast g1 =
          (preamble @ function_prototypes (function_map g1) @ ''\<newline>''
             @ global_variables (variable_map g1) @ ''\<newline>''
             @ concat (map (\<lambda>node. fst (generate node g1) @ ''\<newline>\<newline>'')
                         (filter is_FuncDefNode ast))
             @ ''int main() {\<newline>''
             @ concat (map (\<lambda>node. ''    '' @ fst (generate node g1) @ ''\<newline>'')
                         (filter (\<lambda>node. \<not> is_FuncDefNode node) ast))
             @ ''    return 0;\<newline>'' @ ''}\<newline>'', g1)
      \<and> (\<forall>node \<in> set ast. snd (generate node g1) = g1)
      \<and> (\<forall>node. var_names node \<subseteq> var_names_body ast
              \<and> func_names node \<subseteq> func_names_body ast \<longrightarrow> snd (generate node g1) = g1)
      \<and> (\<forall>x \<in> var_names_body ast. \<exists>v pre post.
            generate (VariableNode x) g1 = (v, g1)
            \<and> global_variables (variable_map g1)
                = pre @ ''MolObject '' @ v @ '';\<newline>'' @ post)
      \<and> (\<forall>f \<in> func_names_body ast. \<exists>v pre post.
            generate (FuncCallNode f) g1 = (v @ ''();'', g1)
            \<and> function_prototypes (function_map g1)
                = pre @ ''MolObject '' @ v @ ''();\<newline>'' @ post)"
    if t: "tokenize code = Inr tokens" and p: "parse tokens = Inr ast"
      and g1: "g1 = collect_symbols_body ast reset_context"
  proof -
    have names: "var_names_body ast \<subseteq> var_keys g1" "func_names_body ast \<subseteq> func_keys g1"
      unfolding g1 by (rule collected_names)+
    note layout = generate_cpp_code_pure[OF names]
    then have keep: "snd (generate_cpp_code ast g1) = g1" by simp
    have tr: "translate_to_cpp code g = (Inr (fst (generate_cpp_code ast g1)), g1)"
      using t p keep g1 by (simp add: translate_to_cpp_def split_beta Let_def)
    have inner: "snd (generate node g1) = g1"
      if "var_names node \<subseteq> var_names_body ast \<and> func_names node \<subseteq> func_names_body ast"
      for node
      using names that by (intro generate_keeps_context(1)) auto
    have nodes: "snd (generate node g1) = g1" if "node \<in> set ast" for node
      using names_of_member[OF that] by (intro inner) simp
    have vars: "\<exists>v pre post. generate (VariableNode x) g1 = (v, g1)
            \<and> global_variables (variable_map g1) = pre @ ''MolObject '' @ v @ '';\<newline>'' @ post"
      if "x \<in> var_names_body ast" for x
    proof -
      from that names obtain v where v: "map_of (variable_map g1) x = Some v"
        by (auto simp: var_keys_def)
      then have "generate (VariableNode x) g1 = (v, g1)" by (simp add: get_cpp_var_known)
      with global_variables_line[OF v] show ?thesis by blast
    qed
    have funcs: "\<exists>v pre post. generate (FuncCallNode f) g1 = (v @ ''();'', g1)
            \<and> function_prototypes (function_map g1)
                = pre @ ''MolObject '' @ v @ ''();\<newline>'' @ post"
      if "f \<in> func_names_body ast" for f
    proof -
      from that names obtain v where v: "map_of (function_map g1) f = Some v"
        by (auto simp: func_keys_def)
      then have "get_cpp_func f g1 = (v, g1)" by (rule get_cpp_func_known)
      then have "generate (FuncCallNode f) g1 = (v @ ''();'', g1)" by simp
      with function_prototypes_line[OF v] show ?thesis by blast
    qed
    from tr layout nodes inner vars funcs show ?thesis by blast
  qed
  have fails: "(\<exists>e. fst (translate_to_cpp code g) = Inl e) \<longleftrightarrow>
        (\<exists>e. tokenize code = Inl e)
        \<or> (\<exists>toks e. tokenize code = Inr toks \<and> parse toks = Inl e)"
    by (auto simp: translate_to_cpp_def split_beta Let_def split: sum.splits)
  from main fails show ?thesis by blast
qed

theorem emission_never_fails_witness:
  "translate_to_cpp
      (glyph_bap @ '' '' @ kw_eun @ '' 1 '' @ kw_camp @ ''1 '' @ kw_camp @ ''1 [ ''
         @ kw_scrum @ '' '' @ glyph_bap @ '' ]'')
      \<lparr>variable_map = [(''x'', ''var_7'')], var_counter = 8,
       function_map = [], func_counter = 3\<rparr> =
     (Inr (preamble @
        ''MolObject func_0();\<newline>\<newline>MolObject var_0;\<newline>\<newline>MolObject func_0() {\<newline>mollang_print(var_0);\<newline>return MolObject();\<newline>}\<newline>\<newline>int main() {\<newline>    var_0 = MolObject(1);\<newline>    func_0();\<newline>    return 0;\<newline>}\<newline>''),
      \<lparr>variable_map = [(glyph_bap, ''var_0'')], var_counter = 1,
       function_map = [(kw_camp @ ''1'', ''func_0'')], func_counter = 1\<rparr>)"
proof -
  let ?code = "glyph_bap @ '' '' @ kw_eun @ '' 1 '' @ kw_camp @ ''1 '' @ kw_camp @ ''1 [ ''
         @ kw_scrum @ '' '' @ glyph_bap @ '' ]''"
  let ?toks = "[\<lparr>tok_type = IDENTIFIER, tok_value = glyph_bap\<rparr>,
      \<lparr>tok_type = KEYWORD, tok_value = kw_eun\<rparr>,
      \<lparr>tok_type = NUMBER, tok_value = ''1''\<rparr>,
      \<lparr>tok_type = IDENTIFIER, tok_value = kw_camp @ ''1''\<rparr>,
      \<lparr>tok_type = IDENTIFIER, tok_value = kw_camp @ ''1''\<rparr>,
      \<lparr>tok_type = SYMBOL, tok_value = ''[''\<rparr>,
      \<lparr>tok_type = KEYWORD, tok_value = kw_scrum\<rparr>,
      \<lparr>tok_type = IDENTIFIER, tok_value = glyph_bap\<rparr>,
      \<lparr>tok_type = SYMBOL, tok_value = '']''\<rparr>,
      \<lparr>tok_type = END_OF_FILE, tok_value = []\<rparr>]"
  define g where "g = collect_symbols_body declared_example reset_context"
  have t: "tokenize ?code = Inr ?toks" by code_simp
  have p: "parse ?toks = Inr declared_example" by code_simp
  have g: "g = \<lparr>variable_map = [(glyph_bap, ''var_0'')], var_counter = 1,
       function_map = [(kw_camp @ ''1'', ''func_0'')], func_counter = 1\<rparr>"
    unfolding g_def by code_simp
  have v: "get_cpp_var glyph_bap g = (''var_0'', g)"
    unfolding g by (simp add: get_cpp_var_def map_at_def)
  have f: "get_cpp_func (kw_camp @ ''1'') g = (''func_0'', g)"
    unfolding g by (simp add: get_cpp_func_def map_at_def)
  have ps: "function_prototypes (function_map g) = ''MolObject func_0();\<newline>''"
    unfolding g by (simp add: function_prototypes_def)
  have vs: "global_variables (variable_map g) = ''MolObject var_0;\<newline>''"
    unfolding g by (simp add: global_variables_def)
  from emission_never_fails[of ?code ?toks declared_example g
      "\<lparr>variable_map = [(''x'', ''var_7'')], var_counter = 8,
       function_map = [], func_counter = 3\<rparr>"] t p g_def
  have tr: "translate_to_cpp ?code \<lparr>variable_map = [(''x'', ''var_7'')], var_counter = 8,
       function_map = [], func_counter = 3\<rparr> = (Inr (fst (generate_cpp_code declared_example g)), g)"
    and doc: "generate_cpp_code declared_example g =
          (preamble @ function_prototypes (function_map g) @ ''\<newline>''
             @ global_variables (variable_map g) @ ''\<newline>''
             @ concat (map (\<lambda>node. fst (generate node g) @ ''\<newline>\<newline>'')
                         (filter is_FuncDefNode declared_example))
             @ ''int main() {\<newline>''
             @ concat (map (\<lambda>node. ''    '' @ fst (generate node g) @ ''\<newline>'')
                         (filter (\<lambda>node. \<not> is_FuncDefNode node) declared_example))
             @ ''    return 0;\<newline>'' @ ''}\<newline>'', g)"
    by blast+
  have "fst (generate_cpp_code declared_example g) = preamble @
        ''MolObject func_0();\<newline>\<newline>MolObject var_0;\<newline>\<newline>MolObject func_0() {\<newline>mollang_print(var_0);\<newline>return MolObject();\<newline>}\<newline>\<newline>int main() {\<newline>    var_0 = MolObject(1);\<newline>    func_0();\<newline>    return 0;\<newline>}\<newline>''"
    unfolding doc ps vs by (simp add: declared_example_def v f)
  with tr show ?thesis unfolding g by simp
qed

end
